theory Spec2Isabelle
  imports Complex_Main
begin

section \<open>Package time: instants, durations, clock fields\<close>

text \<open>
  A Go \<open>time.Time\<close> is an instant together with a \<open>*Location\<close>. The instant is kept as
  Unix seconds and the nanoseconds within that second (\<open>0 .. 999999999\<close>); the location is
  the function that gives, for a Unix instant, the offset east of UTC (in seconds) in
  effect there. \<open>time.UTC\<close> is the constant function \<open>0\<close>, \<open>time.FixedZone\<close> any constant
  function. A \<open>time.Duration\<close> is a count of nanoseconds (\<open>int64\<close> in Go). Every duration
  built by this package is at most eight days in magnitude, so no product or sum below
  leaves the \<open>int64\<close> range; \<open>Time_Sub\<close>, whose operands are arbitrary, saturates as Go does.
\<close>

record Time =
  unix :: int
  nsec :: int
  zone :: "int \<Rightarrow> int"

type_synonym Duration = int

definition time_Second :: Duration where
  "time_Second = 1000000000"

definition time_Minute :: Duration where
  "time_Minute = 60 * time_Second"

definition time_Hour :: Duration where
  "time_Hour = 60 * time_Minute"

definition minDuration :: Duration where
  "minDuration = - (2 ^ 63)"

definition maxDuration :: Duration where
  "maxDuration = 2 ^ 63 - 1"

text \<open>The zero \<open>Time\<close> is January 1, year 1, 00:00:00.000000000 UTC.\<close>

definition Time_IsZero :: "Time \<Rightarrow> bool" where
  "Time_IsZero t = (unix t = - 62135596800 \<and> nsec t = 0)"

definition Time_UTC :: "Time \<Rightarrow> Time" where
  "Time_UTC t = t\<lparr>zone := (\<lambda>_. 0)\<rparr>"

definition Time_Unix :: "Time \<Rightarrow> int" where
  "Time_Unix t = unix t"

text \<open>Seconds on the wall clock of the time's own location.\<close>

definition Time_abs :: "Time \<Rightarrow> int" where
  "Time_abs t = unix t + zone t (unix t)"

definition Time_Hour :: "Time \<Rightarrow> int" where
  "Time_Hour t = (Time_abs t mod 86400) div 3600"

definition Time_Minute :: "Time \<Rightarrow> int" where
  "Time_Minute t = (Time_abs t mod 3600) div 60"

definition Time_Second :: "Time \<Rightarrow> int" where
  "Time_Second t = Time_abs t mod 60"

definition Time_Add :: "Time \<Rightarrow> Duration \<Rightarrow> Time" where
  "Time_Add t d =
     t\<lparr>unix := unix t + (nsec t + d) div 1000000000,
       nsec := (nsec t + d) mod 1000000000\<rparr>"

text \<open>The exact number of nanoseconds from \<open>u\<close> to \<open>t\<close>.\<close>

definition nanos_between :: "Time \<Rightarrow> Time \<Rightarrow> int" where
  "nanos_between u t = (unix t - unix u) * 1000000000 + (nsec t - nsec u)"

text \<open>\<open>t.Sub(u)\<close>: the difference, or the largest (smallest) duration when it does not fit.\<close>

definition Time_Sub :: "Time \<Rightarrow> Time \<Rightarrow> Duration" where
  "Time_Sub t u =
     (let d = nanos_between u t
      in if d < minDuration then minDuration
         else if maxDuration < d then maxDuration
         else d)"

section \<open>The type float64\<close>

text \<open>
  A finite \<open>float64\<close> is kept as the rational number it denotes. An arithmetic operation
  of Go computes the exact result and rounds it to the nearest number with a 53-bit
  significand, ties to the even significand (IEEE 754 binary64, exponent of the last
  place never below \<open>-1074\<close>). Infinities and NaN are not represented: the largest
  magnitude this package computes is below \<open>2 ^ 22\<close>, and it never divides by zero.
\<close>

type_synonym float64 = rat

text \<open>The number of binary digits of a positive integer.\<close>

function bits :: "int \<Rightarrow> nat" where
  "bits n = (if n \<le> 0 then 0 else Suc (bits (n div 2)))"
  by pat_completeness auto
termination
  by (relation "measure nat") auto

declare bits.simps [simp del]

text \<open>The exponent of the leading binary digit of a positive rational.\<close>

definition ilog2 :: "rat \<Rightarrow> int" where
  "ilog2 x = (if 1 \<le> x then int (bits \<lfloor>x\<rfloor>) - 1 else - int (bits (\<lceil>1 / x\<rceil> - 1)))"

text \<open>Rounding to the nearest integer, a tie going to the even one.\<close>

definition rne :: "rat \<Rightarrow> int" where
  "rne y =
     (let f = \<lfloor>y\<rfloor>; r = y - of_int f
      in if r < 1 / 2 then f else if 1 / 2 < r then f + 1 else if even f then f else f + 1)"

definition f64_exp :: "rat \<Rightarrow> int" where
  "f64_exp x = max (ilog2 \<bar>x\<bar> - 52) (- 1074)"

definition round_float64 :: "rat \<Rightarrow> float64" where
  "round_float64 x =
     (if x = 0 then 0
      else sgn x * of_int (rne (\<bar>x\<bar> / 2 powi f64_exp x)) * 2 powi f64_exp x)"

text \<open>The conversion \<open>float64(k)\<close> of an integer, and the operators \<open>+\<close> and \<open>/\<close>.\<close>

definition float64_of_int :: "int \<Rightarrow> float64" where
  "float64_of_int k = round_float64 (of_int k)"

definition f64_add :: "float64 \<Rightarrow> float64 \<Rightarrow> float64" where
  "f64_add a b = round_float64 (a + b)"

definition f64_div :: "float64 \<Rightarrow> float64 \<Rightarrow> float64" where
  "f64_div a b = round_float64 (a / b)"

text \<open>
  Integer division of Go truncates toward zero and the remainder takes the sign of the
  dividend (the divisor is positive wherever this package divides).
\<close>

definition go_quot :: "int \<Rightarrow> int \<Rightarrow> int" where
  "go_quot a b = (if 0 \<le> a then a div b else - ((- a) div b))"

definition go_rem :: "int \<Rightarrow> int \<Rightarrow> int" where
  "go_rem a b = a - b * go_quot a b"

definition Duration_Hours :: "Duration \<Rightarrow> float64" where
  "Duration_Hours d =
     (let hour = go_quot d time_Hour;
          nsec = go_rem d time_Hour
      in f64_add (float64_of_int hour) (f64_div (float64_of_int nsec) (60 * 60 * 1000000000)))"

section \<open>Package fmt: the verbs used by the key helpers\<close>

text \<open>The decimal digits of a magnitude, most significant first, read from the digit table.\<close>

definition digit_char :: "int \<Rightarrow> char" where
  "digit_char d = ''0123456789'' ! nat d"

function fmt_digits :: "int \<Rightarrow> string" where
  "fmt_digits u =
     (if u < 10 then [digit_char u] else fmt_digits (u div 10) @ [digit_char (u mod 10)])"
  by pat_completeness auto
termination
  by (relation "measure nat") auto

declare fmt_digits.simps [simp del]

text \<open>\<open>%d\<close> applied to an integer.\<close>

definition fmt_d :: "int \<Rightarrow> string" where
  "fmt_d k = (if k < 0 then CHR ''-'' # fmt_digits (- k) else fmt_digits k)"

text \<open>
  \<open>%d\<close> applied to an operand of type \<open>string\<close>: the verb does not fit the operand, and
  \<open>fmt\<close> prints the verb, the operand's type and its value.
\<close>

definition fmt_d_string :: "string \<Rightarrow> string" where
  "fmt_d_string s = ''%!d(string='' @ s @ '')''"

section \<open>The domain objects read by the worker\<close>

text \<open>
  Modelled from the spec: package \<open>models\<close> is not among the sources. A channel and a
  message carry a set of moderation flags, of which the worker tests \<open>Troll\<close>; the
  privacy of a public channel is the constant \<open>public\<close> and the content type of a post
  is the constant \<open>post\<close>.
\<close>

datatype MetaBit = Troll

type_synonym MetaBits = "MetaBit set"

definition Is :: "MetaBits \<Rightarrow> MetaBit \<Rightarrow> bool" where
  "Is m mb = (mb \<in> m)"

definition Channel_PRIVACY_PUBLIC :: string where
  "Channel_PRIVACY_PUBLIC = ''public''"

definition ChannelMessage_TYPE_POST :: string where
  "ChannelMessage_TYPE_POST = ''post''"

record Channel =
  GroupName :: string
  Name :: string
  PrivacyConstant :: string
  ChannelMetaBits :: MetaBits

record ChannelMessage =
  Id :: int
  InitialChannelId :: int
  TypeConstant :: string
  CreatedAt :: Time
  MessageMetaBits :: MetaBits

record Interaction =
  InteractionId :: int
  MessageId :: int
  InteractionCreatedAt :: Time

datatype error = Error string

section \<open>Time helpers\<close>

definition getStartOfDay :: "Time \<Rightarrow> Time" where
  "getStartOfDay t =
     (let start = (- Time_Hour t) * time_Hour;
          start = start - Time_Minute t * time_Minute;
          start = start - Time_Second t * time_Second
      in Time_Add t start)"

definition getXDaysAgo :: "Time \<Rightarrow> int \<Rightarrow> Time" where
  "getXDaysAgo t days = (let daysAgo = - time_Hour * 24 * days in Time_Add t daysAgo)"

section \<open>Eligibility\<close>

definition notEligibleForPopularPost :: "Channel \<Rightarrow> ChannelMessage \<Rightarrow> bool" where
  "notEligibleForPopularPost c cm =
     (if Is (ChannelMetaBits c) Troll then True
      else if PrivacyConstant c \<noteq> Channel_PRIVACY_PUBLIC then True
      else if Is (MessageMetaBits cm) Troll then True
      else if TypeConstant cm \<noteq> ChannelMessage_TYPE_POST then True
      else False)"

section \<open>The collaborators of the worker\<close>

text \<open>
  The score store is reached through three calls. Each call the worker issues is
  recorded, in order, with its arguments. What the store answers is a parameter of the
  model: any function of the calls issued so far and of the present call, so that every
  store, a failing one included, is covered.
\<close>

datatype store_op =
  Exists string
| SortedSetIncrBy string int int
| SortedSetsUnion string "string list" "float64 list" string

datatype level = ErrorLevel | DebugLevel

datatype log_arg = ArgError error

text \<open>A log call: level, message, further operands.\<close>

datatype log_entry = Log level string "log_arg list"

datatype amqp_call = Ack bool | Nack bool bool

record Delivery =
  Redelivered :: bool

text \<open>
  What the worker reads from outside: the configured environment name, the clock (the
  value of the \<open>k\<close>-th read of \<open>time.Now()\<close>), the two lookups of package \<open>models\<close>, and
  the answers of the score store. The text that the verb \<open>%v\<close> prints for a time (its
  \<open>String\<close> method, which spells the date, the clock and the zone's name) is a parameter
  as well: times are kept here without the names of their zones.
\<close>

record sys =
  Environment :: string
  clock :: "nat \<Rightarrow> Time"
  ChannelMessageById :: "int \<Rightarrow> error + ChannelMessage"
  ChannelById :: "int \<Rightarrow> error + Channel"
  store_exists :: "store_op list \<Rightarrow> string \<Rightarrow> bool"
  store_error :: "store_op list \<Rightarrow> store_op \<Rightarrow> error option"
  Time_String :: "Time \<Rightarrow> string"

text \<open>What the worker has done so far.\<close>

record world =
  ticks :: nat
  calls :: "store_op list"
  logs :: "log_entry list"
  amqp :: "amqp_call list"

definition time_Now :: "sys \<Rightarrow> world \<Rightarrow> Time \<times> world" where
  "time_Now sys w = (clock sys (ticks w), w\<lparr>ticks := Suc (ticks w)\<rparr>)"

definition redis_Exists :: "sys \<Rightarrow> string \<Rightarrow> world \<Rightarrow> bool \<times> world" where
  "redis_Exists sys key w =
     (store_exists sys (calls w) key, w\<lparr>calls := calls w @ [Exists key]\<rparr>)"

definition redis_SortedSetIncrBy ::
  "sys \<Rightarrow> string \<Rightarrow> int \<Rightarrow> int \<Rightarrow> world \<Rightarrow> error option \<times> world" where
  "redis_SortedSetIncrBy sys key incrBy item w =
     (store_error sys (calls w) (SortedSetIncrBy key incrBy item),
      w\<lparr>calls := calls w @ [SortedSetIncrBy key incrBy item]\<rparr>)"

definition redis_SortedSetsUnion ::
  "sys \<Rightarrow> string \<Rightarrow> string list \<Rightarrow> float64 list \<Rightarrow> string \<Rightarrow> world \<Rightarrow> error option \<times> world" where
  "redis_SortedSetsUnion sys destination keys weights aggregate w =
     (store_error sys (calls w) (SortedSetsUnion destination keys weights aggregate),
      w\<lparr>calls := calls w @ [SortedSetsUnion destination keys weights aggregate]\<rparr>)"

definition log_Error :: "string \<Rightarrow> log_arg list \<Rightarrow> world \<Rightarrow> world" where
  "log_Error msg args w = w\<lparr>logs := logs w @ [Log ErrorLevel msg args]\<rparr>"

definition log_Debug :: "string \<Rightarrow> log_arg list \<Rightarrow> world \<Rightarrow> world" where
  "log_Debug msg args w = w\<lparr>logs := logs w @ [Log DebugLevel msg args]\<rparr>"

definition delivery_Ack :: "bool \<Rightarrow> world \<Rightarrow> world" where
  "delivery_Ack multiple w = w\<lparr>amqp := amqp w @ [Ack multiple]\<rparr>"

definition delivery_Nack :: "bool \<Rightarrow> bool \<Rightarrow> world \<Rightarrow> world" where
  "delivery_Nack multiple requeue w = w\<lparr>amqp := amqp w @ [Nack multiple requeue]\<rparr>"

section \<open>The delivery boundary\<close>

definition DefaultErrHandler :: "Delivery \<Rightarrow> error \<Rightarrow> world \<Rightarrow> bool \<times> world" where
  "DefaultErrHandler delivery err w =
     (if Redelivered delivery then
        (let w1 = log_Error ''Redelivered message gave error again, putting to maintenance queue''
                    [ArgError err] w;
             w2 = delivery_Ack False w1
         in (True, w2))
      else
        (let w1 = log_Error ''an error occured putting message back to queue'' [ArgError err] w;
             w2 = delivery_Nack False True w1
         in (False, w2)))"

section \<open>Key helpers\<close>

definition PopularPostKey :: string where
  "PopularPostKey = ''popularpost''"

definition PreparePopularPostKey :: "sys \<Rightarrow> string \<Rightarrow> string \<Rightarrow> int \<Rightarrow> string" where
  "PreparePopularPostKey sys group' channelName day =
     Environment sys @ '':'' @ group' @ '':'' @ PopularPostKey @ '':'' @ channelName @ '':''
       @ fmt_d day"

definition GetDailyKey :: "sys \<Rightarrow> Channel \<Rightarrow> Time \<Rightarrow> world \<Rightarrow> string \<times> world" where
  "GetDailyKey sys c date w =
     (case (if Time_IsZero date
            then (case time_Now sys w of (now, w') \<Rightarrow> (Time_UTC now, w'))
            else (date, w)) of
        (date', w') \<Rightarrow>
          (let unix = Time_Unix (getStartOfDay date')
           in (PreparePopularPostKey sys (GroupName c) (Name c) unix, w')))"

definition GetSevenDayKey :: "sys \<Rightarrow> Channel \<Rightarrow> ChannelMessage \<Rightarrow> world \<Rightarrow> string \<times> world" where
  "GetSevenDayKey sys c cm w =
     (case GetDailyKey sys c (CreatedAt cm) w of
        (postCreatedAtKey, w') \<Rightarrow>
          (let date = getStartOfDay (CreatedAt cm);
               sevenDaysAgo = Time_Unix (getXDaysAgo date 7)
           in (fmt_d_string postCreatedAtKey @ ''-'' @ fmt_d sevenDaysAgo, w')))"

section \<open>The age check\<close>

definition createdMoreThan7DaysAgo :: "sys \<Rightarrow> Time \<Rightarrow> world \<Rightarrow> bool \<times> world" where
  "createdMoreThan7DaysAgo sys createdAt w =
     (case time_Now sys w of
        (now, w') \<Rightarrow>
          (let delta = Time_Sub now createdAt
           in (7 < f64_div (Duration_Hours delta) 24, w')))"

section \<open>The bucket updates\<close>

definition saveToDailyBucket ::
  "sys \<Rightarrow> Channel \<Rightarrow> ChannelMessage \<Rightarrow> Interaction \<Rightarrow> int \<Rightarrow> world \<Rightarrow> error option \<times> world" where
  "saveToDailyBucket sys c cm i incrementCount w =
     (case GetDailyKey sys c (CreatedAt cm) w of
        (key, w') \<Rightarrow> redis_SortedSetIncrBy sys key incrementCount (Id cm) w')"

function createSevenDayCombinedBucket_loop ::
  "sys \<Rightarrow> Channel \<Rightarrow> Time \<Rightarrow> int \<Rightarrow> string list \<Rightarrow> float64 list \<Rightarrow> world
     \<Rightarrow> string list \<times> float64 list \<times> world" where
  "createSevenDayCombinedBucket_loop sys c from i keys weights w =
     (if i \<le> 7 then
        (let currentDate = getXDaysAgo from i
         in case GetDailyKey sys c currentDate w of
              (key, w') \<Rightarrow>
                (let weight = float64_of_int i;
                     weight = (if weight = 0 then 1 else weight)
                 in createSevenDayCombinedBucket_loop sys c from (i + 1)
                      (keys @ [key]) (weights @ [f64_div 1 weight]) w'))
      else (keys, weights, w))"
  by pat_completeness auto
termination
  by (relation "measure (\<lambda>(sys, c, from, i, keys, weights, w). nat (8 - i))") auto

declare createSevenDayCombinedBucket_loop.simps [simp del]

definition createSevenDayCombinedBucket ::
  "sys \<Rightarrow> Channel \<Rightarrow> ChannelMessage \<Rightarrow> string \<Rightarrow> Time \<Rightarrow> world \<Rightarrow> error option \<times> world" where
  "createSevenDayCombinedBucket sys c cm key from w =
     (let aggregate = ''SUM'';
          from = getStartOfDay from
      in case createSevenDayCombinedBucket_loop sys c from 0 [] [] w of
           (keys, weights, w') \<Rightarrow> redis_SortedSetsUnion sys key keys weights aggregate w')"

definition saveToSevenDayBucket ::
  "sys \<Rightarrow> Channel \<Rightarrow> ChannelMessage \<Rightarrow> Interaction \<Rightarrow> int \<Rightarrow> world \<Rightarrow> error option \<times> world" where
  "saveToSevenDayBucket sys c cm i incrementCount w =
     (case GetSevenDayKey sys c cm w of
        (key, w1) \<Rightarrow>
          (let from = getStartOfDay (CreatedAt cm)
           in case redis_Exists sys key w1 of
                (exists, w2) \<Rightarrow>
                  (if \<not> exists then
                     (case createSevenDayCombinedBucket sys c cm key from w2 of
                        (Some err, w3) \<Rightarrow> (Some err, w3)
                      | (None, w3) \<Rightarrow> redis_SortedSetIncrBy sys key incrementCount (Id cm) w3)
                   else redis_SortedSetIncrBy sys key incrementCount (Id cm) w2)))"

section \<open>The interaction handler\<close>

definition handleInteraction :: "sys \<Rightarrow> int \<Rightarrow> Interaction \<Rightarrow> world \<Rightarrow> error option \<times> world" where
  "handleInteraction sys incrementCount i w =
     (case ChannelMessageById sys (MessageId i) of
        Inl err \<Rightarrow> (Some err, w)
      | Inr cm \<Rightarrow>
          (case ChannelById sys (InitialChannelId cm) of
             Inl err \<Rightarrow> (Some err, w)
           | Inr c \<Rightarrow>
               if notEligibleForPopularPost c cm then
                 (None, log_Error (''Not eligible Interaction Id:'' @ fmt_d (InteractionId i)) [] w)
               else
                 (case createdMoreThan7DaysAgo sys (CreatedAt cm) w of
                    (True, w1) \<Rightarrow>
                      (None, log_Debug
                               (''Post created more than 7 days ago: '' @ fmt_d (InteractionId i)
                                  @ '', '' @ Time_String sys (InteractionCreatedAt i)) [] w1)
                  | (False, w1) \<Rightarrow>
                      (case saveToDailyBucket sys c cm i incrementCount w1 of
                         (Some err, w2) \<Rightarrow> (Some err, w2)
                       | (None, w2) \<Rightarrow>
                           (case saveToSevenDayBucket sys c cm i incrementCount w2 of
                              (Some err, w3) \<Rightarrow> (Some err, w3)
                            | (None, w3) \<Rightarrow> (None, w3))))))"

definition InteractionSaved :: "sys \<Rightarrow> Interaction \<Rightarrow> world \<Rightarrow> error option \<times> world" where
  "InteractionSaved sys i w = handleInteraction sys 1 i w"

definition InteractionDeleted :: "sys \<Rightarrow> Interaction \<Rightarrow> world \<Rightarrow> error option \<times> world" where
  "InteractionDeleted sys i w = handleInteraction sys (- 1) i w"

section \<open>Sample inputs\<close>

text \<open>
  A public channel, a post of 13 May 2014 in it, a like of that post, and a system whose
  clock starts at 2014-05-13 16:53:20 UTC and advances one second per reading, whose
  score store is empty at first, holds a key once it has been written and never fails,
  and which prints a time as its Unix seconds. The worked examples below run the worker
  on them.
\<close>

definition demo_channel :: Channel where
  "demo_channel =
     \<lparr>GroupName = ''koding'', Name = ''public'', PrivacyConstant = ''public'',
      ChannelMetaBits = {}\<rparr>"

definition demo_message :: ChannelMessage where
  "demo_message =
     \<lparr>Id = 7, InitialChannelId = 3, TypeConstant = ''post'',
      CreatedAt = \<lparr>unix = 1399990000, nsec = 0, zone = (\<lambda>_. 0)\<rparr>,
      MessageMetaBits = {}\<rparr>"

definition demo_interaction :: Interaction where
  "demo_interaction =
     \<lparr>InteractionId = 11, MessageId = 7,
      InteractionCreatedAt = \<lparr>unix = 1399999999, nsec = 0, zone = (\<lambda>_. 0)\<rparr>\<rparr>"

fun writes_key :: "string \<Rightarrow> store_op \<Rightarrow> bool" where
  "writes_key key (Exists k) = False"
| "writes_key key (SortedSetIncrBy k n item) = (k = key)"
| "writes_key key (SortedSetsUnion k keys weights aggregate) = (k = key)"

definition demo_sys :: sys where
  "demo_sys =
     \<lparr>Environment = ''vagrant'',
      clock = (\<lambda>k. \<lparr>unix = 1400000000 + int k, nsec = 0, zone = (\<lambda>_. 0)\<rparr>),
      ChannelMessageById =
        (\<lambda>id. if id = 7 then Inr demo_message else Inl (Error ''record not found'')),
      ChannelById =
        (\<lambda>id. if id = 3 then Inr demo_channel else Inl (Error ''record not found'')),
      store_exists = (\<lambda>history key. list_ex (writes_key key) history),
      store_error = (\<lambda>history op. None),
      Time_String = (\<lambda>t. fmt_d (unix t))\<rparr>"

definition demo_world :: world where
  "demo_world = \<lparr>ticks = 0, calls = [], logs = [], amqp = []\<rparr>"

text \<open>
  A post created at 12:00 in New York on 9 March 2014, the day the clocks there went
  from five to four hours behind UTC (at 07:00 UTC, Unix 1394348400).
\<close>

definition new_york_2014 :: "int \<Rightarrow> int" where
  "new_york_2014 u = (if u < 1394348400 then - 18000 else - 14400)"

definition dst_message :: ChannelMessage where
  "dst_message =
     \<lparr>Id = 8, InitialChannelId = 3, TypeConstant = ''post'',
      CreatedAt = \<lparr>unix = 1394380800, nsec = 0, zone = new_york_2014\<rparr>,
      MessageMetaBits = {}\<rparr>"

section \<open>Rounding to float64 is monotone\<close>

text \<open>
  The comparisons the worker makes on \<open>float64\<close> values are settled from two facts: the
  rounding never reverses the order of two numbers, and its value at a handful of
  explicit points.
\<close>

lemma bits_pos: "0 < n \<Longrightarrow> 0 < bits n"
  by (simp add: bits.simps[of n])

lemma bits_bounds: "0 < n \<Longrightarrow> 2 ^ (bits n - 1) \<le> n \<and> n < 2 ^ bits n"
proof (induction n rule: bits.induct)
  case (1 n)
  show ?case
  proof (cases "n div 2 \<le> 0")
    case True
    with 1(2) have "n = 1" by linarith
    then show ?thesis by (simp add: bits.simps[of 1] bits.simps[of 0])
  next
    case False
    then have pos: "0 < n div 2" by simp
    from 1 pos have ih: "2 ^ (bits (n div 2) - 1) \<le> n div 2 \<and> n div 2 < 2 ^ bits (n div 2)"
      by simp
    have b: "bits n = Suc (bits (n div 2))" using 1(2) by (simp add: bits.simps[of n])
    obtain k where k: "bits (n div 2) = Suc k"
      using bits_pos[OF pos] by (cases "bits (n div 2)") auto
    from ih k have "2 * 2 ^ k \<le> n" "n < 2 * 2 ^ Suc k" by auto
    then show ?thesis by (simp add: b k)
  qed
qed

lemma ilog2_bounds:
  assumes "0 < x"
  shows "2 powi ilog2 x \<le> x \<and> x < 2 powi (ilog2 x + 1)"
proof (cases "1 \<le> x")
  case True
  define n where "n = \<lfloor>x\<rfloor>"
  have npos: "0 < n" using True by (simp add: n_def)
  from bits_bounds[OF npos] have b: "2 ^ (bits n - 1) \<le> n" "n < 2 ^ bits n" by auto
  have il: "ilog2 x = int (bits n) - 1" using True by (simp add: ilog2_def n_def)
  obtain k where k: "bits n = Suc k" using bits_pos[OF npos] by (cases "bits n") auto
  have "(2::rat) powi ilog2 x = 2 ^ k" by (simp add: il k)
  also have "\<dots> = of_int (2 ^ k)" by simp
  also have "\<dots> \<le> of_int n" using b(1) unfolding k by (simp only: of_int_le_iff diff_Suc_1)
  also have "\<dots> \<le> x" by (simp add: n_def)
  finally have lo: "2 powi ilog2 x \<le> x" .
  have "n + 1 \<le> 2 ^ bits n" using b(2) by simp
  then have "(of_int (n + 1) :: rat) \<le> of_int (2 ^ bits n)" by (simp only: of_int_le_iff)
  then have "(of_int (n + 1) :: rat) \<le> 2 ^ bits n" by simp
  moreover have "x < of_int (n + 1)" unfolding n_def by linarith
  ultimately have "x < 2 ^ bits n" by linarith
  moreover have "(2::rat) powi (ilog2 x + 1) = 2 ^ bits n" by (simp add: il)
  ultimately show ?thesis using lo by simp
next
  case False
  define m where "m = \<lceil>1 / x\<rceil>"
  define n where "n = m - 1"
  have y: "1 < 1 / x" using False assms by simp
  then have m2: "2 \<le> m" unfolding m_def by linarith
  have npos: "0 < n" using m2 by (simp add: n_def)
  from bits_bounds[OF npos] have b: "2 ^ (bits n - 1) \<le> n" "n < 2 ^ bits n" by auto
  have il: "ilog2 x = - int (bits n)" using False by (simp add: ilog2_def n_def m_def)
  obtain k where k: "bits n = Suc k" using bits_pos[OF npos] by (cases "bits n") auto
  have "m \<le> 2 ^ bits n" using b(2) by (simp add: n_def)
  then have "(of_int m :: rat) \<le> of_int (2 ^ bits n)" by (simp only: of_int_le_iff)
  then have "(of_int m :: rat) \<le> 2 ^ bits n" by simp
  moreover have "1 / x \<le> of_int m" unfolding m_def by linarith
  ultimately have "1 / x \<le> 2 ^ bits n" by linarith
  then have "1 \<le> 2 ^ bits n * x" using assms by (simp add: field_simps)
  then have lo: "2 powi ilog2 x \<le> x" unfolding il by (simp add: power_int_minus field_simps)
  have "(of_int (2 ^ k) :: rat) \<le> of_int n" using b(1) unfolding k by (simp only: of_int_le_iff diff_Suc_1)
  then have "(2 ^ k :: rat) \<le> of_int n" by simp
  moreover have "of_int n < 1 / x" unfolding n_def m_def by linarith
  ultimately have "2 ^ k < 1 / x" by linarith
  then have "2 ^ k * x < 1" using assms by (simp add: field_simps)
  moreover have "(2::rat) powi (ilog2 x + 1) = 1 / 2 ^ k"
    unfolding il k by (simp add: power_int_minus field_simps)
  moreover have "x < 1 / 2 ^ k" using \<open>2 ^ k * x < 1\<close> by (simp add: field_simps)
  ultimately have "x < 2 powi (ilog2 x + 1)" by simp
  then show ?thesis using lo by simp
qed

lemma rne_of_int: "rne (of_int n) = n"
  by (simp add: rne_def)

lemma rne_bounds: "\<lfloor>y\<rfloor> \<le> rne y \<and> rne y \<le> \<lfloor>y\<rfloor> + 1"
  by (simp add: rne_def Let_def)

lemma rne_mono:
  assumes "y \<le> z"
  shows "rne y \<le> rne z"
proof (cases "\<lfloor>y\<rfloor> = \<lfloor>z\<rfloor>")
  case True
  have "y - of_int \<lfloor>z\<rfloor> \<le> z - of_int \<lfloor>z\<rfloor>" using assms by simp
  then show ?thesis unfolding rne_def Let_def True by auto
next
  case False
  have "\<lfloor>y\<rfloor> \<le> \<lfloor>z\<rfloor>" using assms by (rule floor_mono)
  with False have "\<lfloor>y\<rfloor> + 1 \<le> \<lfloor>z\<rfloor>" by simp
  with rne_bounds[of y] rne_bounds[of z] show ?thesis by linarith
qed

lemma rne_le: "y \<le> of_int n \<Longrightarrow> rne y \<le> n"
  using rne_mono[of y "of_int n"] by (simp add: rne_of_int)

lemma rne_ge: "of_int n \<le> y \<Longrightarrow> n \<le> rne y"
  using rne_mono[of "of_int n" y] by (simp add: rne_of_int)

lemma round_float64_pos:
  "0 < x \<Longrightarrow> round_float64 x = of_int (rne (x / 2 powi f64_exp x)) * 2 powi f64_exp x"
  by (simp add: round_float64_def)

lemma two_powi_pos: "(0::rat) < 2 powi k"
  by (simp add: power_int_def)

lemma two_powi_less_cancel:
  assumes "(2::rat) powi a < 2 powi b"
  shows "a < b"
proof (rule ccontr)
  assume "\<not> a < b"
  then have "b \<le> a" by simp
  then have "(2::rat) powi b \<le> 2 powi a" by (rule power_int_increasing) simp
  with assms show False by simp
qed

lemma round_float64_pos_mono:
  assumes "0 < x" "x \<le> y"
  shows "round_float64 x \<le> round_float64 y"
proof -
  have ypos: "0 < y" using assms by simp
  note bx = ilog2_bounds[OF assms(1)]
  note by' = ilog2_bounds[OF ypos]
  have ax: "\<bar>x\<bar> = x" and ay: "\<bar>y\<bar> = y" using assms by simp_all
  have "(2::rat) powi ilog2 x < 2 powi (ilog2 y + 1)" using bx by' assms(2) by linarith
  then have L: "ilog2 x \<le> ilog2 y" using two_powi_less_cancel by fastforce
  then have E: "f64_exp x \<le> f64_exp y" by (simp add: f64_exp_def ax ay)
  show ?thesis
  proof (cases "f64_exp x = f64_exp y")
    case True
    have "x / 2 powi f64_exp y \<le> y / 2 powi f64_exp y"
      using assms(2) two_powi_pos[of "f64_exp y"] by (simp add: divide_right_mono)
    then have "rne (x / 2 powi f64_exp y) \<le> rne (y / 2 powi f64_exp y)" by (rule rne_mono)
    then have "(of_int (rne (x / 2 powi f64_exp y)) :: rat) \<le> of_int (rne (y / 2 powi f64_exp y))"
      by (simp only: of_int_le_iff)
    then show ?thesis
      unfolding round_float64_pos[OF assms(1)] round_float64_pos[OF ypos] True
      using two_powi_pos[of "f64_exp y"] by (simp add: mult_right_mono)
  next
    case False
    with E have lt: "f64_exp x < f64_exp y" by simp
    then have Ey: "f64_exp y = ilog2 y - 52" by (auto simp: f64_exp_def ay max_def split: if_splits)
    have Ex: "ilog2 x - 52 \<le> f64_exp x" by (simp add: f64_exp_def ax)
    define K where "K = max (ilog2 x + 1 - f64_exp x) 0"
    have K0: "0 \<le> K" by (simp add: K_def)
    have KE: "K + f64_exp x \<le> ilog2 y" using lt Ey Ex by (auto simp: K_def max_def)
    \<comment> \<open>the larger operand rounds to at least its leading power of two\<close>
    have "(2::rat) powi ilog2 y = 2 powi 52 * 2 powi f64_exp y"
      unfolding Ey by (subst power_int_add[symmetric]) simp_all
    then have "(2::rat) powi 52 * 2 powi f64_exp y \<le> y" using by' by simp
    then have "(2::rat) powi 52 \<le> y / 2 powi f64_exp y"
      using two_powi_pos[of "f64_exp y"] by (simp add: pos_le_divide_eq)
    then have "of_int (2 ^ 52) \<le> y / (2::rat) powi f64_exp y" by simp
    then have "2 ^ 52 \<le> rne (y / 2 powi f64_exp y)" by (rule rne_ge)
    then have "(of_int (2 ^ 52) :: rat) \<le> of_int (rne (y / 2 powi f64_exp y))"
      by (simp only: of_int_le_iff)
    then have "(2::rat) powi 52 * 2 powi f64_exp y \<le> round_float64 y"
      unfolding round_float64_pos[OF ypos] using two_powi_pos[of "f64_exp y"]
      by (simp add: mult_right_mono)
    then have lo: "(2::rat) powi ilog2 y \<le> round_float64 y"
      using \<open>(2::rat) powi ilog2 y = 2 powi 52 * 2 powi f64_exp y\<close> by simp
    \<comment> \<open>the smaller operand rounds to at most the next power of two\<close>
    have "(2::rat) powi (ilog2 x + 1) = 2 powi (ilog2 x + 1 - f64_exp x) * 2 powi f64_exp x"
      by (subst power_int_add[symmetric]) simp_all
    also have "\<dots> \<le> 2 powi K * 2 powi f64_exp x"
      using two_powi_pos[of "f64_exp x"]
      by (intro mult_right_mono power_int_increasing) (simp_all add: K_def)
    finally have "x \<le> 2 powi K * 2 powi f64_exp x" using bx by linarith
    then have "x / 2 powi f64_exp x \<le> 2 powi K"
      using two_powi_pos[of "f64_exp x"] by (simp add: pos_divide_le_eq)
    also have "(2::rat) powi K = of_int (2 ^ nat K)" using K0 by (simp add: power_int_nonneg_exp)
    finally have "rne (x / 2 powi f64_exp x) \<le> 2 ^ nat K" by (rule rne_le)
    then have "(of_int (rne (x / 2 powi f64_exp x)) :: rat) \<le> of_int (2 ^ nat K)"
      by (simp only: of_int_le_iff)
    then have "(of_int (rne (x / 2 powi f64_exp x)) :: rat) \<le> 2 powi K"
      using K0 by (simp add: power_int_nonneg_exp)
    then have "round_float64 x \<le> 2 powi K * 2 powi f64_exp x"
      unfolding round_float64_pos[OF assms(1)] using two_powi_pos[of "f64_exp x"]
      by (simp add: mult_right_mono)
    also have "\<dots> = 2 powi (K + f64_exp x)" by (subst power_int_add[symmetric]) simp_all
    also have "\<dots> \<le> 2 powi ilog2 y" using KE by (intro power_int_increasing) simp_all
    finally show ?thesis using lo by linarith
  qed
qed

lemma round_float64_zero: "round_float64 0 = 0"
  by (simp add: round_float64_def)

lemma round_float64_minus: "round_float64 (- x) = - round_float64 x"
  by (simp add: round_float64_def f64_exp_def)

lemma round_float64_nonneg: "0 \<le> x \<Longrightarrow> 0 \<le> round_float64 x"
  using round_float64_pos_mono[of x x] rne_ge[of 0 "x / 2 powi f64_exp x"] two_powi_pos[of "f64_exp x"]
  by (cases "x = 0") (simp_all add: round_float64_zero round_float64_pos)

lemma round_float64_mono:
  assumes "x \<le> y"
  shows "round_float64 x \<le> round_float64 y"
proof -
  consider "0 < x" | "x \<le> 0" "0 \<le> y" | "y < 0" by linarith
  then show ?thesis
  proof cases
    case 1
    then show ?thesis using assms by (rule round_float64_pos_mono)
  next
    case 2
    have "0 \<le> round_float64 (- x)" using 2(1) by (intro round_float64_nonneg) simp
    then have "round_float64 x \<le> 0" by (simp add: round_float64_minus)
    moreover have "0 \<le> round_float64 y" using 2(2) by (rule round_float64_nonneg)
    ultimately show ?thesis by simp
  next
    case 3
    have "round_float64 (- y) \<le> round_float64 (- x)"
      using 3 assms by (intro round_float64_pos_mono) simp_all
    then show ?thesis by (simp add: round_float64_minus)
  qed
qed

section \<open>Hours of a duration, divided by 24, against 7\<close>

lemma hours_over_24_mono:
  assumes "h \<le> h'" "n \<le> n'"
  shows "f64_div (f64_add (float64_of_int h) (f64_div (float64_of_int n) (60 * 60 * 1000000000))) 24
       \<le> f64_div (f64_add (float64_of_int h') (f64_div (float64_of_int n') (60 * 60 * 1000000000))) 24"
proof -
  have a: "float64_of_int h \<le> float64_of_int h'"
    unfolding float64_of_int_def using assms(1) by (intro round_float64_mono) simp
  have "float64_of_int n \<le> float64_of_int n'"
    unfolding float64_of_int_def using assms(2) by (intro round_float64_mono) simp
  then have b: "f64_div (float64_of_int n) (60 * 60 * 1000000000)
             \<le> f64_div (float64_of_int n') (60 * 60 * 1000000000)"
    unfolding f64_div_def by (intro round_float64_mono divide_right_mono) simp_all
  have "f64_add (float64_of_int h) (f64_div (float64_of_int n) (60 * 60 * 1000000000))
      \<le> f64_add (float64_of_int h') (f64_div (float64_of_int n') (60 * 60 * 1000000000))"
    unfolding f64_add_def using a b by (intro round_float64_mono add_mono)
  then show ?thesis
    unfolding f64_div_def by (intro round_float64_mono divide_right_mono) simp_all
qed

lemma hours_over_24_at_169:
  "7 < f64_div (f64_add (float64_of_int 169) (f64_div (float64_of_int 0) (60 * 60 * 1000000000))) 24"
  by code_simp

lemma hours_over_24_just_above:
  "7 < f64_div (f64_add (float64_of_int 168) (f64_div (float64_of_int 1) (60 * 60 * 1000000000))) 24"
  by code_simp

lemma hours_over_24_at_168:
  "f64_div (f64_add (float64_of_int 168) (f64_div (float64_of_int 0) (60 * 60 * 1000000000))) 24 = 7"
  by code_simp

lemma hours_over_24_just_below:
  "f64_div (f64_add (float64_of_int 167)
      (f64_div (float64_of_int 3599999999999) (60 * 60 * 1000000000))) 24 \<le> 7"
  by code_simp

lemma hours_over_24_at_0:
  "f64_div (f64_add (float64_of_int 0) (f64_div (float64_of_int 0) (60 * 60 * 1000000000))) 24 \<le> 7"
  by code_simp

lemma go_quot_rem_nonneg:
  "0 \<le> d \<Longrightarrow> go_quot d 3600000000000 = d div 3600000000000
     \<and> go_rem d 3600000000000 = d mod 3600000000000"
  by (simp add: go_quot_def go_rem_def minus_mult_div_eq_mod)

lemma go_quot_rem_neg:
  "d < 0 \<Longrightarrow> go_quot d 3600000000000 \<le> 0 \<and> go_rem d 3600000000000 \<le> 0"
proof -
  assume d: "d < 0"
  have q: "go_quot d 3600000000000 = - ((- d) div 3600000000000)"
    using d by (simp add: go_quot_def)
  have "go_rem d 3600000000000 = - ((- d) mod 3600000000000)"
    unfolding go_rem_def q by (simp add: minus_mult_div_eq_mod[symmetric])
  moreover have "0 \<le> (- d) mod 3600000000000" by simp
  moreover have "0 \<le> (- d) div 3600000000000" using d by (simp add: pos_imp_zdiv_nonneg_iff)
  ultimately show ?thesis using q by simp
qed

lemma Duration_Hours_over_24:
  "(7 < f64_div (Duration_Hours d) 24) = (604800000000000 < d)"
proof -
  let ?Q = "\<lambda>h n. f64_div (f64_add (float64_of_int h)
                (f64_div (float64_of_int n) (60 * 60 * 1000000000))) 24"
  have unfold: "f64_div (Duration_Hours d) 24
      = ?Q (go_quot d 3600000000000) (go_rem d 3600000000000)"
    by (simp add: Duration_Hours_def Let_def time_Hour_def time_Minute_def time_Second_def)
  define q where "q = d div 3600000000000"
  define r where "r = d mod 3600000000000"
  have d: "d = 3600000000000 * q + r" by (simp add: q_def r_def)
  have r: "0 \<le> r" "r < 3600000000000" by (simp_all add: r_def)
  show ?thesis
  proof (cases "d < 0")
    case True
    from go_quot_rem_neg[OF True]
    have "?Q (go_quot d 3600000000000) (go_rem d 3600000000000) \<le> ?Q 0 0"
      by (intro hours_over_24_mono) simp_all
    with hours_over_24_at_0 have "\<not> 7 < f64_div (Duration_Hours d) 24"
      unfolding unfold by linarith
    then show ?thesis using True by simp
  next
    case False
    then have nn: "0 \<le> d" by simp
    have qr: "go_quot d 3600000000000 = q" "go_rem d 3600000000000 = r"
      using go_quot_rem_nonneg[OF nn] by (simp_all add: q_def r_def)
    consider "604800000000000 < d" "169 \<le> q" | "604800000000000 < d" "q = 168" "1 \<le> r"
      | "d = 604800000000000" "q = 168" "r = 0" | "d < 604800000000000" "q \<le> 167"
    proof -
      consider "q \<le> 167" | "q = 168" | "169 \<le> q" by linarith
      then show ?thesis
      proof cases
        case 1
        then have "d < 604800000000000" using d r by linarith
        with 1 that(4) show ?thesis by blast
      next
        case 2
        then have "d = 604800000000000 + r" using d by simp
        with 2 r that(2,3) show ?thesis by (cases "r = 0") simp_all
      next
        case 3
        then have "604800000000000 < d" using d r by linarith
        with 3 that(1) show ?thesis by blast
      qed
    qed
    then show ?thesis
    proof cases
      case 1
      have "?Q 169 0 \<le> ?Q q r" using 1(2) r(1) by (intro hours_over_24_mono)
      with hours_over_24_at_169 have "7 < ?Q q r" by linarith
      then show ?thesis using 1(1) unfolding unfold qr by simp
    next
      case 2
      have "?Q 168 1 \<le> ?Q q r" using 2(2,3) by (intro hours_over_24_mono) simp_all
      with hours_over_24_just_above have "7 < ?Q q r" by linarith
      then show ?thesis using 2(1) unfolding unfold qr by simp
    next
      case 3
      then show ?thesis unfolding unfold qr using hours_over_24_at_168 by simp
    next
      case 4
      have "?Q q r \<le> ?Q 167 3599999999999" using 4(2) r(2) by (intro hours_over_24_mono) simp_all
      with hours_over_24_just_below have "\<not> 7 < ?Q q r" by linarith
      then show ?thesis using 4(1) unfolding unfold qr by simp
    qed
  qed
qed

lemma Time_Sub_over_week:
  "(604800000000000 < Time_Sub now t) = (604800000000000 < nanos_between t now)"
  by (simp add: Time_Sub_def Let_def minDuration_def maxDuration_def)

lemma createdMoreThan7DaysAgo_exact:
  "createdMoreThan7DaysAgo sys createdAt w =
     (7 * 24 * 3600 * 1000000000 < nanos_between createdAt (clock sys (ticks w)),
      w\<lparr>ticks := Suc (ticks w)\<rparr>)"
  by (simp add: createdMoreThan7DaysAgo_def time_Now_def Let_def Duration_Hours_over_24
        Time_Sub_over_week)

section \<open>What each helper adds to the record of calls\<close>

lemma GetDailyKey_nonzero:
  "\<not> Time_IsZero date \<Longrightarrow>
     GetDailyKey sys c date w =
       (PreparePopularPostKey sys (GroupName c) (Name c) (Time_Unix (getStartOfDay date)), w)"
  by (simp add: GetDailyKey_def)

lemma GetDailyKey_zero:
  "Time_IsZero date \<Longrightarrow>
     GetDailyKey sys c date w =
       (PreparePopularPostKey sys (GroupName c) (Name c)
          (Time_Unix (getStartOfDay (Time_UTC (clock sys (ticks w))))),
        w\<lparr>ticks := Suc (ticks w)\<rparr>)"
  by (simp add: GetDailyKey_def time_Now_def)

lemma GetDailyKey_frame:
  "calls (snd (GetDailyKey sys c date w)) = calls w
   \<and> logs (snd (GetDailyKey sys c date w)) = logs w
   \<and> amqp (snd (GetDailyKey sys c date w)) = amqp w"
  by (cases "Time_IsZero date") (simp_all add: GetDailyKey_nonzero GetDailyKey_zero)

lemma GetDailyKey_key_ticks:
  "ticks w = ticks w' \<Longrightarrow> fst (GetDailyKey sys c date w) = fst (GetDailyKey sys c date w')"
  by (cases "Time_IsZero date") (simp_all add: GetDailyKey_nonzero GetDailyKey_zero)

lemma GetSevenDayKey_frame:
  "calls (snd (GetSevenDayKey sys c cm w)) = calls w
   \<and> logs (snd (GetSevenDayKey sys c cm w)) = logs w
   \<and> amqp (snd (GetSevenDayKey sys c cm w)) = amqp w"
  using GetDailyKey_frame[of sys c "CreatedAt cm" w]
  by (simp add: GetSevenDayKey_def Let_def case_prod_beta)

lemma createdMoreThan7DaysAgo_frame:
  "calls (snd (createdMoreThan7DaysAgo sys t w)) = calls w
   \<and> logs (snd (createdMoreThan7DaysAgo sys t w)) = logs w
   \<and> amqp (snd (createdMoreThan7DaysAgo sys t w)) = amqp w"
  by (simp add: createdMoreThan7DaysAgo_def time_Now_def Let_def)

lemma saveToDailyBucket_trace:
  "calls (snd (saveToDailyBucket sys c cm i n w)) =
     calls w @ [SortedSetIncrBy (fst (GetDailyKey sys c (CreatedAt cm) w)) n (Id cm)]
   \<and> fst (saveToDailyBucket sys c cm i n w) =
     store_error sys (calls w) (SortedSetIncrBy (fst (GetDailyKey sys c (CreatedAt cm) w)) n (Id cm))"
  using GetDailyKey_frame[of sys c "CreatedAt cm" w]
  by (simp add: saveToDailyBucket_def redis_SortedSetIncrBy_def case_prod_beta)

lemma loop_frame:
  "calls (snd (snd (createSevenDayCombinedBucket_loop sys c from i keys weights w))) = calls w
   \<and> logs (snd (snd (createSevenDayCombinedBucket_loop sys c from i keys weights w))) = logs w
   \<and> amqp (snd (snd (createSevenDayCombinedBucket_loop sys c from i keys weights w))) = amqp w"
proof (induction sys c "from" i keys weights w rule: createSevenDayCombinedBucket_loop.induct)
  case (1 sys c f i keys weights w)
  show ?case
  proof (cases "i \<le> 7")
    case False
    then show ?thesis by (simp add: createSevenDayCombinedBucket_loop.simps[of sys c f i])
  next
    case True
    obtain key w' where g: "GetDailyKey sys c (getXDaysAgo f i) w = (key, w')"
      by (cases "GetDailyKey sys c (getXDaysAgo f i) w")
    from GetDailyKey_frame[of sys c "getXDaysAgo f i" w] g
    have fr: "calls w' = calls w" "logs w' = logs w" "amqp w' = amqp w" by simp_all
    from "1.IH"[OF True refl g[symmetric] refl refl] fr True g
    show ?thesis
      by (simp add: createSevenDayCombinedBucket_loop.simps[of sys c f i keys weights w] Let_def)
  qed
qed

lemma createSevenDayCombinedBucket_trace:
  "\<exists>keys weights.
     calls (snd (createSevenDayCombinedBucket sys c cm key from w)) =
       calls w @ [SortedSetsUnion key keys weights ''SUM'']
     \<and> fst (createSevenDayCombinedBucket sys c cm key from w) =
       store_error sys (calls w) (SortedSetsUnion key keys weights ''SUM'')"
  using loop_frame[of sys c "getStartOfDay from" 0 "[]" "[]" w]
  by (simp add: createSevenDayCombinedBucket_def redis_SortedSetsUnion_def Let_def case_prod_beta)

lemma saveToSevenDayBucket_trace:
  assumes "key = fst (GetSevenDayKey sys c cm w)"
    and "incr = SortedSetIncrBy key n (Id cm)"
    and "saveToSevenDayBucket sys c cm i n w = (r, w')"
  shows "(store_exists sys (calls w) key \<longrightarrow>
            calls w' = calls w @ [Exists key, incr]
            \<and> r = store_error sys (calls w @ [Exists key]) incr)
       \<and> (\<not> store_exists sys (calls w) key \<longrightarrow>
            (\<exists>keys weights.
               (case store_error sys (calls w @ [Exists key]) (SortedSetsUnion key keys weights ''SUM'') of
                  Some err \<Rightarrow>
                    calls w' = calls w @ [Exists key, SortedSetsUnion key keys weights ''SUM'']
                    \<and> r = Some err
                | None \<Rightarrow>
                    calls w' = calls w @ [Exists key, SortedSetsUnion key keys weights ''SUM'', incr]
                    \<and> r = store_error sys
                          (calls w @ [Exists key, SortedSetsUnion key keys weights ''SUM'']) incr)))"
proof -
  obtain k w1 where g: "GetSevenDayKey sys c cm w = (k, w1)"
    by (cases "GetSevenDayKey sys c cm w")
  have k: "k = key" using assms(1) g by simp
  have c1: "calls w1 = calls w" using GetSevenDayKey_frame[of sys c cm w] g by simp
  define w2 where "w2 = w1\<lparr>calls := calls w1 @ [Exists key]\<rparr>"
  have c2: "calls w2 = calls w @ [Exists key]" by (simp add: w2_def c1)
  show ?thesis
  proof (cases "store_exists sys (calls w) key")
    case True
    then show ?thesis
      using assms(3) g k c1
      by (auto simp: saveToSevenDayBucket_def redis_Exists_def redis_SortedSetIncrBy_def
            Let_def assms(2))
  next
    case False
    obtain keys weights where u:
      "calls (snd (createSevenDayCombinedBucket sys c cm key (getStartOfDay (CreatedAt cm)) w2)) =
         calls w2 @ [SortedSetsUnion key keys weights ''SUM'']"
      "fst (createSevenDayCombinedBucket sys c cm key (getStartOfDay (CreatedAt cm)) w2) =
         store_error sys (calls w2) (SortedSetsUnion key keys weights ''SUM'')"
      using createSevenDayCombinedBucket_trace[of sys c cm key "getStartOfDay (CreatedAt cm)" w2]
      by blast
    obtain r3 w3 where b:
      "createSevenDayCombinedBucket sys c cm key (getStartOfDay (CreatedAt cm)) w2 = (r3, w3)"
      by (cases "createSevenDayCombinedBucket sys c cm key (getStartOfDay (CreatedAt cm)) w2")
    from u b have c3: "calls w3 = calls w @ [Exists key, SortedSetsUnion key keys weights ''SUM'']"
      and r3: "r3 = store_error sys (calls w @ [Exists key]) (SortedSetsUnion key keys weights ''SUM'')"
      by (simp_all add: c2)
    have body: "(r, w') = (case r3 of Some err \<Rightarrow> (Some err, w3)
                        | None \<Rightarrow> redis_SortedSetIncrBy sys key n (Id cm) w3)"
      using assms(3) g k c1 False b
      by (simp add: saveToSevenDayBucket_def redis_Exists_def Let_def w2_def split: option.splits)
    have "case r3 of
            Some err \<Rightarrow>
              calls w' = calls w @ [Exists key, SortedSetsUnion key keys weights ''SUM'']
              \<and> r = Some err
          | None \<Rightarrow>
              calls w' = calls w @ [Exists key, SortedSetsUnion key keys weights ''SUM'', incr]
              \<and> r = store_error sys
                    (calls w @ [Exists key, SortedSetsUnion key keys weights ''SUM'']) incr"
      using body c3
      by (cases r3) (simp_all add: redis_SortedSetIncrBy_def assms(2))
    then show ?thesis using False unfolding r3 by blast
  qed
qed

section \<open>The handler, branch by branch\<close>

lemma saveToSevenDayBucket_first_call:
  "\<exists>rest. calls (snd (saveToSevenDayBucket sys c cm i n w)) =
            calls w @ Exists (fst (GetSevenDayKey sys c cm w)) # rest"
proof -
  obtain r w' where e: "saveToSevenDayBucket sys c cm i n w = (r, w')"
    by (cases "saveToSevenDayBucket sys c cm i n w")
  from saveToSevenDayBucket_trace[OF refl refl e]
  show ?thesis unfolding e by (auto split: option.splits)
qed

lemma handleInteraction_eligible_fresh:
  assumes "ChannelMessageById sys (MessageId i) = Inr cm"
    and "ChannelById sys (InitialChannelId cm) = Inr c"
    and "\<not> notEligibleForPopularPost c cm"
    and "\<not> fst (createdMoreThan7DaysAgo sys (CreatedAt cm) w)"
  shows "handleInteraction sys n i w =
     (case fst (saveToDailyBucket sys c cm i n (snd (createdMoreThan7DaysAgo sys (CreatedAt cm) w))) of
        Some err \<Rightarrow>
          (Some err, snd (saveToDailyBucket sys c cm i n (snd (createdMoreThan7DaysAgo sys (CreatedAt cm) w))))
      | None \<Rightarrow>
          saveToSevenDayBucket sys c cm i n
            (snd (saveToDailyBucket sys c cm i n (snd (createdMoreThan7DaysAgo sys (CreatedAt cm) w)))))"
proof -
  obtain w1 where a: "createdMoreThan7DaysAgo sys (CreatedAt cm) w = (False, w1)"
    using assms(4) by (cases "createdMoreThan7DaysAgo sys (CreatedAt cm) w") auto
  obtain r2 w2 where d: "saveToDailyBucket sys c cm i n w1 = (r2, w2)"
    by (cases "saveToDailyBucket sys c cm i n w1")
  obtain r3 w3 where s: "saveToSevenDayBucket sys c cm i n w2 = (r3, w3)"
    by (cases "saveToSevenDayBucket sys c cm i n w2")
  show ?thesis
    using assms(1-3) by (simp add: handleInteraction_def a d s split: option.splits)
qed

lemma handleInteraction_no_store_call:
  assumes "ChannelMessageById sys (MessageId i) = Inr cm"
    and "ChannelById sys (InitialChannelId cm) = Inr c"
    and "notEligibleForPopularPost c cm \<or> fst (createdMoreThan7DaysAgo sys (CreatedAt cm) w)"
  shows "fst (handleInteraction sys n i w) = None
       \<and> calls (snd (handleInteraction sys n i w)) = calls w"
proof (cases "notEligibleForPopularPost c cm")
  case True
  then show ?thesis using assms(1,2) by (simp add: handleInteraction_def log_Error_def)
next
  case False
  with assms(3) have old: "fst (createdMoreThan7DaysAgo sys (CreatedAt cm) w)" by simp
  then obtain w1 where a: "createdMoreThan7DaysAgo sys (CreatedAt cm) w = (True, w1)"
    by (cases "createdMoreThan7DaysAgo sys (CreatedAt cm) w") auto
  have "calls w1 = calls w" using createdMoreThan7DaysAgo_frame[of sys "CreatedAt cm" w] a by simp
  then show ?thesis using assms(1,2) False by (simp add: handleInteraction_def a log_Debug_def)
qed

lemma saveToDailyBucket_ignores_interaction:
  "saveToDailyBucket sys c cm i n w = saveToDailyBucket sys c cm i' n w"
  by (simp add: saveToDailyBucket_def)

lemma saveToSevenDayBucket_ignores_interaction:
  "saveToSevenDayBucket sys c cm i n w = saveToSevenDayBucket sys c cm i' n w"
  by (simp add: saveToSevenDayBucket_def)

section \<open>The loop over the eight days\<close>

lemma getXDaysAgo_unix:
  "unix (getXDaysAgo t j) = unix t + nsec t div 1000000000 - 86400 * j"
proof -
  have d: "- time_Hour * 24 * j = (- (86400 * j)) * 1000000000"
    by (simp add: time_Hour_def time_Minute_def time_Second_def)
  have "unix (getXDaysAgo t j) = unix t + (nsec t + (- (86400 * j)) * 1000000000) div 1000000000"
    unfolding getXDaysAgo_def Let_def Time_Add_def d by simp
  also have "(nsec t + (- (86400 * j)) * 1000000000) div 1000000000
               = - (86400 * j) + nsec t div 1000000000"
    by (rule div_mult_self1) simp
  finally show ?thesis by simp
qed

lemma zero_day_unique:
  assumes "Time_IsZero (getXDaysAgo t j)" "Time_IsZero (getXDaysAgo t k)"
  shows "j = k"
proof -
  from assms have "unix (getXDaysAgo t j) = unix (getXDaysAgo t k)"
    by (simp add: Time_IsZero_def)
  then show ?thesis unfolding getXDaysAgo_unix by linarith
qed

lemma loop_result:
  assumes "\<forall>j. i \<le> j \<and> j \<le> 7 \<and> Time_IsZero (getXDaysAgo from j) \<longrightarrow> ticks w = ticks w0"
  shows "fst (createSevenDayCombinedBucket_loop sys c from i keys weights w) =
           keys @ map (\<lambda>j. fst (GetDailyKey sys c (getXDaysAgo from j) w0)) [i..7]
       \<and> fst (snd (createSevenDayCombinedBucket_loop sys c from i keys weights w)) =
           weights @ map (\<lambda>j. f64_div 1 (if float64_of_int j = 0 then 1 else float64_of_int j)) [i..7]"
  using assms
proof (induction sys c "from" i keys weights w rule: createSevenDayCombinedBucket_loop.induct)
  case (1 sys c f i keys weights w)
  show ?case
  proof (cases "i \<le> 7")
    case False
    then show ?thesis by (simp add: createSevenDayCombinedBucket_loop.simps[of sys c f i])
  next
    case True
    obtain key w' where g: "GetDailyKey sys c (getXDaysAgo f i) w = (key, w')"
      by (cases "GetDailyKey sys c (getXDaysAgo f i) w")
    have key: "key = fst (GetDailyKey sys c (getXDaysAgo f i) w0)"
    proof (cases "Time_IsZero (getXDaysAgo f i)")
      case z: True
      with True have "i \<le> i \<and> i \<le> 7 \<and> Time_IsZero (getXDaysAgo f i)" by simp
      with "1.prems" have "ticks w = ticks w0" by blast
      from GetDailyKey_key_ticks[OF this, of sys c "getXDaysAgo f i"] g show ?thesis by simp
    next
      case False
      then show ?thesis using g by (simp add: GetDailyKey_nonzero)
    qed
    have next_prem:
      "\<forall>j. i + 1 \<le> j \<and> j \<le> 7 \<and> Time_IsZero (getXDaysAgo f j) \<longrightarrow> ticks w' = ticks w0"
    proof (cases "Time_IsZero (getXDaysAgo f i)")
      case z: True
      have "\<not> Time_IsZero (getXDaysAgo f j)" if "i + 1 \<le> j" for j
        using zero_day_unique[OF z, of j] that by auto
      then show ?thesis by blast
    next
      case False
      then have "w' = w" using g by (simp add: GetDailyKey_nonzero)
      moreover have "ticks w = ticks w0"
        if "i + 1 \<le> j" "j \<le> 7" "Time_IsZero (getXDaysAgo f j)" for j
      proof -
        from that have "i \<le> j \<and> j \<le> 7 \<and> Time_IsZero (getXDaysAgo f j)" by simp
        with "1.prems" show ?thesis by blast
      qed
      ultimately show ?thesis by blast
    qed
    have unroll: "createSevenDayCombinedBucket_loop sys c f i keys weights w =
        createSevenDayCombinedBucket_loop sys c f (i + 1) (keys @ [key])
          (weights @ [f64_div 1 (if float64_of_int i = 0 then 1 else float64_of_int i)]) w'"
      using True g
      by (simp add: createSevenDayCombinedBucket_loop.simps[of sys c f i keys weights w] Let_def)
    have up: "[i..7] = i # [i + 1..7]" using True by (rule upto_rec1)
    from "1.IH"[OF True refl g[symmetric] refl refl next_prem]
    show ?thesis unfolding unroll up by (simp add: key)
  qed
qed

lemma float64_of_small_int:
  "float64_of_int 0 = 0 \<and> float64_of_int 1 = 1 \<and> float64_of_int 2 = 2 \<and> float64_of_int 3 = 3
   \<and> float64_of_int 4 = 4 \<and> float64_of_int 5 = 5 \<and> float64_of_int 6 = 6 \<and> float64_of_int 7 = 7"
  by code_simp

lemma upto_0_7: "[0..7] = [0, 1, 2, 3, 4, 5, 6, 7::int]"
  by code_simp

lemma union_weights:
  "map (\<lambda>i. if i = 0 then 1 else f64_div 1 (of_int i)) [0..7] =
     [1, 1, 1 / 2, 6004799503160661 / 18014398509481984, 1 / 4,
      3602879701896397 / 18014398509481984, 6004799503160661 / 36028797018963968,
      2573485501354569 / 18014398509481984]"
  by code_simp

lemma createSevenDayCombinedBucket_call:
  "calls (snd (createSevenDayCombinedBucket sys c cm key from w)) =
     calls w @
       [SortedSetsUnion key
          (map (\<lambda>i. fst (GetDailyKey sys c (getXDaysAgo (getStartOfDay from) i) w)) [0..7])
          (map (\<lambda>i. if i = 0 then 1 else f64_div 1 (of_int i)) [0..7])
          ''SUM'']"
proof -
  let ?f = "getStartOfDay from"
  obtain keys weights w' where l:
    "createSevenDayCombinedBucket_loop sys c ?f 0 [] [] w = (keys, weights, w')"
    by (cases "createSevenDayCombinedBucket_loop sys c ?f 0 [] [] w") auto
  have "\<forall>j. 0 \<le> j \<and> j \<le> 7 \<and> Time_IsZero (getXDaysAgo ?f j) \<longrightarrow> ticks w = ticks w" by simp
  from loop_result[OF this, of sys c "[]" "[]"] l
  have keys: "keys = map (\<lambda>j. fst (GetDailyKey sys c (getXDaysAgo ?f j) w)) [0..7]"
    and weights: "weights =
      map (\<lambda>j. f64_div 1 (if float64_of_int j = 0 then 1 else float64_of_int j)) [0..7]"
    by simp_all
  have "weights = map (\<lambda>i. if i = 0 then 1 else f64_div 1 (of_int i)) [0..7]"
    unfolding weights upto_0_7 using float64_of_small_int union_weights[unfolded upto_0_7]
    by simp
  moreover have "calls w' = calls w"
    using loop_frame[of sys c ?f 0 "[]" "[]" w] l by simp
  ultimately show ?thesis
    using l keys by (simp add: createSevenDayCombinedBucket_def redis_SortedSetsUnion_def Let_def)
qed

section \<open>The rolling key as it is rendered\<close>

lemma GetSevenDayKey_format:
  "fst (GetSevenDayKey sys c cm w) =
     ''%!d(string='' @ fst (GetDailyKey sys c (CreatedAt cm) w) @ '')-''
       @ fmt_d (Time_Unix (getXDaysAgo (getStartOfDay (CreatedAt cm)) 7))"
  by (simp add: GetSevenDayKey_def fmt_d_string_def Let_def case_prod_beta)

lemma GetSevenDayKey_not_plain:
  "fst (GetSevenDayKey sys c cm w) \<noteq>
     fst (GetDailyKey sys c (CreatedAt cm) w) @ ''-''
       @ fmt_d (Time_Unix (getXDaysAgo (getStartOfDay (CreatedAt cm)) 7))"
proof
  assume "fst (GetSevenDayKey sys c cm w) =
     fst (GetDailyKey sys c (CreatedAt cm) w) @ ''-''
       @ fmt_d (Time_Unix (getXDaysAgo (getStartOfDay (CreatedAt cm)) 7))"
  then have "length (fst (GetSevenDayKey sys c cm w)) =
     length (fst (GetDailyKey sys c (CreatedAt cm) w) @ ''-''
       @ fmt_d (Time_Unix (getXDaysAgo (getStartOfDay (CreatedAt cm)) 7)))"
    by simp
  then show False unfolding GetSevenDayKey_format by simp
qed

section \<open>Daily keys and calendar days\<close>

text \<open>
  For timestamps whose location is UTC the daily key carries the seconds of 00:00:00 UTC
  of the timestamp's day, and two such timestamps get the same key exactly when they
  fall on the same UTC day.
\<close>

lemma clock_fields_sum:
  "((x mod 86400) div 3600) * 3600 + ((x mod 3600) div 60) * 60 + x mod 60 = x mod (86400::int)"
proof -
  define r where "r = x mod 86400"
  have a: "r mod 3600 = x mod 3600" unfolding r_def by (simp add: mod_mod_cancel)
  have b: "(x mod 3600) mod 60 = x mod 60" by (simp add: mod_mod_cancel)
  have "r = (r div 3600) * 3600 + r mod 3600" by simp
  also have "r mod 3600 = ((x mod 3600) div 60) * 60 + (x mod 3600) mod 60" unfolding a by simp
  finally show ?thesis unfolding b r_def by simp
qed

lemma getStartOfDay_unix:
  "unix (getStartOfDay t) = unix t - Time_abs t mod 86400 + nsec t div 1000000000"
proof -
  let ?x = "Time_abs t"
  have "(- Time_Hour t) * time_Hour - Time_Minute t * time_Minute - Time_Second t * time_Second
        = (- (((?x mod 86400) div 3600) * 3600 + ((?x mod 3600) div 60) * 60 + ?x mod 60)) * 1000000000"
    by (simp add: Time_Hour_def Time_Minute_def Time_Second_def time_Hour_def time_Minute_def
          time_Second_def algebra_simps)
  also have "\<dots> = (- (?x mod 86400)) * 1000000000" unfolding clock_fields_sum ..
  finally have d: "(- Time_Hour t) * time_Hour - Time_Minute t * time_Minute
                      - Time_Second t * time_Second = (- (?x mod 86400)) * 1000000000" .
  have "unix (getStartOfDay t) =
          unix t + (nsec t + (- (?x mod 86400)) * 1000000000) div 1000000000"
    unfolding getStartOfDay_def Let_def d Time_Add_def by simp
  also have "(nsec t + (- (?x mod 86400)) * 1000000000) div 1000000000
               = - (?x mod 86400) + nsec t div 1000000000"
    by (rule div_mult_self1) simp
  finally show ?thesis by simp
qed

lemma getStartOfDay_unix_UTC:
  assumes "zone t = (\<lambda>_. 0)" "0 \<le> nsec t" "nsec t < 1000000000"
  shows "unix (getStartOfDay t) = 86400 * (unix t div 86400)"
proof -
  have "nsec t div 1000000000 = 0" using assms(2,3) by simp
  moreover have "Time_abs t = unix t" using assms(1) by (simp add: Time_abs_def)
  ultimately show ?thesis
    unfolding getStartOfDay_unix by (simp add: minus_mod_eq_mult_div)
qed

lemma digit_char_inj:
  assumes "0 \<le> a" "a < 10" "0 \<le> b" "b < 10" "digit_char a = digit_char b"
  shows "a = b"
proof -
  have "distinct ''0123456789''" by simp
  moreover have "nat a < length ''0123456789''" "nat b < length ''0123456789''"
    using assms(1-4) by simp_all
  ultimately have "nat a = nat b"
    using assms(5) unfolding digit_char_def by (simp only: nth_eq_iff_index_eq)
  then show ?thesis using assms(1,3) by simp
qed

lemma digit_char_not_minus:
  assumes "0 \<le> a" "a < 10"
  shows "digit_char a \<noteq> CHR ''-''"
proof -
  have "nat a < length ''0123456789''" using assms by simp
  then have "''0123456789'' ! nat a \<in> set ''0123456789''" by (rule nth_mem)
  then show ?thesis unfolding digit_char_def by auto
qed

lemma fmt_digits_not_Nil: "fmt_digits u \<noteq> []"
  by (subst fmt_digits.simps) simp

lemma fmt_digits_hd:
  "0 \<le> u \<Longrightarrow> hd (fmt_digits u) \<noteq> CHR ''-''"
proof (induction u rule: fmt_digits.induct)
  case (1 u)
  show ?case
  proof (cases "u < 10")
    case True
    then show ?thesis using 1(2) digit_char_not_minus[of u] by (simp add: fmt_digits.simps[of u])
  next
    case False
    then have "0 \<le> u div 10" by simp
    with 1(1)[OF False] have "hd (fmt_digits (u div 10)) \<noteq> CHR ''-''" by simp
    then show ?thesis
      using False fmt_digits_not_Nil[of "u div 10"] by (simp add: fmt_digits.simps[of u])
  qed
qed

lemma fmt_digits_inj:
  "0 \<le> u \<Longrightarrow> 0 \<le> v \<Longrightarrow> fmt_digits u = fmt_digits v \<Longrightarrow> u = v"
proof (induction u arbitrary: v rule: fmt_digits.induct)
  case (1 u)
  show ?case
  proof (cases "u < 10")
    case small_u: True
    show ?thesis
    proof (cases "v < 10")
      case True
      with small_u 1(2,3,4) show ?thesis
        by (simp add: fmt_digits.simps[of u] fmt_digits.simps[of v] digit_char_inj)
    next
      case False
      with small_u 1(4) fmt_digits_not_Nil[of "v div 10"] show ?thesis
        by (simp add: fmt_digits.simps[of u] fmt_digits.simps[of v])
    qed
  next
    case big_u: False
    show ?thesis
    proof (cases "v < 10")
      case True
      with big_u 1(4) fmt_digits_not_Nil[of "u div 10"] show ?thesis
        by (simp add: fmt_digits.simps[of u] fmt_digits.simps[of v])
    next
      case False
      with big_u 1(4) have e: "fmt_digits (u div 10) = fmt_digits (v div 10)"
        and l: "digit_char (u mod 10) = digit_char (v mod 10)"
        by (simp_all add: fmt_digits.simps[of u] fmt_digits.simps[of v])
      have "u div 10 = v div 10"
        using 1(1)[OF big_u _ _ e] 1(2,3) by simp
      moreover have "u mod 10 = v mod 10"
        using l by (intro digit_char_inj) simp_all
      ultimately show ?thesis by (metis mult_div_mod_eq)
    qed
  qed
qed

lemma fmt_d_inj: "fmt_d a = fmt_d b \<Longrightarrow> a = b"
proof -
  assume e: "fmt_d a = fmt_d b"
  consider "a < 0" "b < 0" | "0 \<le> a" "0 \<le> b" | "a < 0" "0 \<le> b" | "0 \<le> a" "b < 0"
    by linarith
  then show ?thesis
  proof cases
    case 1
    with e have "fmt_digits (- a) = fmt_digits (- b)" by (simp add: fmt_d_def)
    with 1 have "- a = - b" by (intro fmt_digits_inj) simp_all
    then show ?thesis by simp
  next
    case 2
    with e show ?thesis by (simp add: fmt_d_def fmt_digits_inj)
  next
    case 3
    with e have "CHR ''-'' # fmt_digits (- a) = fmt_digits b" by (simp add: fmt_d_def)
    then have "hd (fmt_digits b) = CHR ''-''" by (metis list.sel(1))
    with fmt_digits_hd[OF 3(2)] show ?thesis by simp
  next
    case 4
    with e have "fmt_digits a = CHR ''-'' # fmt_digits (- b)" by (simp add: fmt_d_def)
    then have "hd (fmt_digits a) = CHR ''-''" by simp
    with fmt_digits_hd[OF 4(1)] show ?thesis by simp
  qed
qed

lemma GetDailyKey_UTC_days:
  assumes "zone t = (\<lambda>_. 0)" "0 \<le> nsec t" "nsec t < 1000000000" "\<not> Time_IsZero t"
    and "zone t' = (\<lambda>_. 0)" "0 \<le> nsec t'" "nsec t' < 1000000000" "\<not> Time_IsZero t'"
  shows "fst (GetDailyKey sys c t w) =
           PreparePopularPostKey sys (GroupName c) (Name c) (86400 * (unix t div 86400))"
    and "(fst (GetDailyKey sys c t w) = fst (GetDailyKey sys c t' w'))
           = (unix t div 86400 = unix t' div 86400)"
proof -
  show k: "fst (GetDailyKey sys c t w) =
           PreparePopularPostKey sys (GroupName c) (Name c) (86400 * (unix t div 86400))"
    using assms(1-4) by (simp add: GetDailyKey_nonzero Time_Unix_def getStartOfDay_unix_UTC)
  have k': "fst (GetDailyKey sys c t' w') =
           PreparePopularPostKey sys (GroupName c) (Name c) (86400 * (unix t' div 86400))"
    using assms(5-8) by (simp add: GetDailyKey_nonzero Time_Unix_def getStartOfDay_unix_UTC)
  show "(fst (GetDailyKey sys c t w) = fst (GetDailyKey sys c t' w'))
           = (unix t div 86400 = unix t' div 86400)"
  proof
    assume "fst (GetDailyKey sys c t w) = fst (GetDailyKey sys c t' w')"
    then have "fmt_d (86400 * (unix t div 86400)) = fmt_d (86400 * (unix t' div 86400))"
      unfolding k k' PreparePopularPostKey_def by simp
    then have "86400 * (unix t div 86400) = 86400 * (unix t' div 86400)" by (rule fmt_d_inj)
    then show "unix t div 86400 = unix t' div 86400" by simp
  next
    assume "unix t div 86400 = unix t' div 86400"
    then show "fst (GetDailyKey sys c t w) = fst (GetDailyKey sys c t' w')"
      unfolding k k' by simp
  qed
qed

section \<open>The worker run on the sample inputs\<close>

lemma demo_run:
  "(fst (handleInteraction demo_sys 1 demo_interaction demo_world),
    calls (snd (handleInteraction demo_sys 1 demo_interaction demo_world))) =
     (None,
         [SortedSetIncrBy ''vagrant:koding:popularpost:public:1399939200'' 1 7,
          Exists ''%!d(string=vagrant:koding:popularpost:public:1399939200)-1399334400'',
          SortedSetsUnion ''%!d(string=vagrant:koding:popularpost:public:1399939200)-1399334400''
            [''vagrant:koding:popularpost:public:1399939200'',
             ''vagrant:koding:popularpost:public:1399852800'',
             ''vagrant:koding:popularpost:public:1399766400'',
             ''vagrant:koding:popularpost:public:1399680000'',
             ''vagrant:koding:popularpost:public:1399593600'',
             ''vagrant:koding:popularpost:public:1399507200'',
             ''vagrant:koding:popularpost:public:1399420800'',
             ''vagrant:koding:popularpost:public:1399334400'']
            [1, 1, 1 / 2, 6004799503160661 / 18014398509481984, 1 / 4,
             3602879701896397 / 18014398509481984, 6004799503160661 / 36028797018963968,
             2573485501354569 / 18014398509481984]
            ''SUM'',
          SortedSetIncrBy ''%!d(string=vagrant:koding:popularpost:public:1399939200)-1399334400'' 1 7])"
  by code_simp

lemma demo_daily_keys:
  "map (\<lambda>i. fst (GetDailyKey demo_sys demo_channel
                  (getXDaysAgo (getStartOfDay (CreatedAt demo_message)) i) demo_world)) [0..7] =
     [''vagrant:koding:popularpost:public:1399939200'',
      ''vagrant:koding:popularpost:public:1399852800'',
      ''vagrant:koding:popularpost:public:1399766400'',
      ''vagrant:koding:popularpost:public:1399680000'',
      ''vagrant:koding:popularpost:public:1399593600'',
      ''vagrant:koding:popularpost:public:1399507200'',
      ''vagrant:koding:popularpost:public:1399420800'',
      ''vagrant:koding:popularpost:public:1399334400'']"
  by code_simp

lemma demo_rolling_key:
  "fst (GetSevenDayKey demo_sys demo_channel demo_message demo_world) =
     ''%!d(string=vagrant:koding:popularpost:public:1399939200)-1399334400''"
  by code_simp

lemma demo_rolling_key_later:
  "fst (GetSevenDayKey demo_sys demo_channel demo_message
         (demo_world\<lparr>calls :=
            [SortedSetIncrBy
               ''%!d(string=vagrant:koding:popularpost:public:1399939200)-1399334400'' 1 7]\<rparr>)) =
     ''%!d(string=vagrant:koding:popularpost:public:1399939200)-1399334400''"
  by code_simp

section \<open>The rolling key of a message\<close>

text \<open>
  Claim C1. The rolling key is built with the verb \<open>%d\<close> for both operands, and the first
  operand is the daily key, a string. On the sample post the result is the daily key
  wrapped in \<open>%!d(string=\<close> and \<open>)\<close>, then the hyphen and the seconds of the day start
  seven days earlier; it is not the daily key followed by the hyphen and the seconds.
\<close>

theorem GetSevenDayKey_on_sample:
  "fst (GetSevenDayKey demo_sys demo_channel demo_message demo_world) =
     ''%!d(string=vagrant:koding:popularpost:public:1399939200)-1399334400''
   \<and> fst (GetDailyKey demo_sys demo_channel (CreatedAt demo_message) demo_world) =
     ''vagrant:koding:popularpost:public:1399939200''
   \<and> fmt_d (Time_Unix (getXDaysAgo (getStartOfDay (CreatedAt demo_message)) 7)) = ''1399334400''
   \<and> fst (GetSevenDayKey demo_sys demo_channel demo_message demo_world) \<noteq>
     ''vagrant:koding:popularpost:public:1399939200-1399334400''"
proof -
  have d: "fst (GetDailyKey demo_sys demo_channel (CreatedAt demo_message) demo_world) =
     ''vagrant:koding:popularpost:public:1399939200''"
    by code_simp
  have s: "fmt_d (Time_Unix (getXDaysAgo (getStartOfDay (CreatedAt demo_message)) 7)) = ''1399334400''"
    by code_simp
  show ?thesis
    using GetSevenDayKey_format [of demo_sys demo_channel demo_message demo_world] d s by simp
qed

section \<open>The daily key and the UTC day\<close>

text \<open>
  Claim C2. The start of the day is taken on the wall clock of the timestamp's own
  location. For timestamps one hour east of UTC: 00:30 and 23:30 UTC of 13 May 2014 fall
  on the same UTC day and get different daily keys, while 23:30 UTC of 12 May and
  00:30 UTC of 13 May fall on adjacent UTC days and get the same daily key.
\<close>

theorem GetDailyKey_follows_the_location:
  "unix \<lparr>unix = 1399941000, nsec = 0, zone = (\<lambda>_. 3600)\<rparr> div 86400
     = unix \<lparr>unix = 1400023800, nsec = 0, zone = (\<lambda>_. 3600)\<rparr> div 86400
   \<and> fst (GetDailyKey demo_sys demo_channel
             \<lparr>unix = 1399941000, nsec = 0, zone = (\<lambda>_. 3600)\<rparr> demo_world)
       = ''vagrant:koding:popularpost:public:1399935600''
   \<and> fst (GetDailyKey demo_sys demo_channel
             \<lparr>unix = 1400023800, nsec = 0, zone = (\<lambda>_. 3600)\<rparr> demo_world)
       = ''vagrant:koding:popularpost:public:1400022000''
   \<and> unix \<lparr>unix = 1399937400, nsec = 0, zone = (\<lambda>_. 3600)\<rparr> div 86400 + 1
     = unix \<lparr>unix = 1399941000, nsec = 0, zone = (\<lambda>_. 3600)\<rparr> div 86400
   \<and> fst (GetDailyKey demo_sys demo_channel
             \<lparr>unix = 1399937400, nsec = 0, zone = (\<lambda>_. 3600)\<rparr> demo_world)
       = ''vagrant:koding:popularpost:public:1399935600''"
  by code_simp

section \<open>The delivery boundary decides between acknowledge and requeue\<close>

text \<open>
  Claim C3. On a failed handler call the error handler acknowledges a redelivered
  message (one \<open>Ack\<close>, no requeue) and reports it handled; a first delivery is
  negatively acknowledged with requeue requested and reported unhandled. It never
  touches the score store. A first delivery followed by its redelivery therefore issues
  one requeue request and then one acknowledgement: the message is retried once.
\<close>

theorem DefaultErrHandler_policy:
  "(Redelivered delivery \<longrightarrow>
      fst (DefaultErrHandler delivery err w) = True
      \<and> amqp (snd (DefaultErrHandler delivery err w)) = amqp w @ [Ack False])
   \<and> (\<not> Redelivered delivery \<longrightarrow>
      fst (DefaultErrHandler delivery err w) = False
      \<and> amqp (snd (DefaultErrHandler delivery err w)) = amqp w @ [Nack False True])
   \<and> calls (snd (DefaultErrHandler delivery err w)) = calls w
   \<and> amqp (snd (DefaultErrHandler \<lparr>Redelivered = True\<rparr> err'
              (snd (DefaultErrHandler \<lparr>Redelivered = False\<rparr> err w))))
       = amqp w @ [Nack False True, Ack False]"
  by (simp add: DefaultErrHandler_def Let_def log_Error_def delivery_Ack_def delivery_Nack_def)

theorem DefaultErrHandler_policy_witness:
  "fst (DefaultErrHandler \<lparr>Redelivered = True\<rparr> (Error ''timeout'')
          \<lparr>ticks = 0, calls = [], logs = [], amqp = []\<rparr>) = True
   \<and> amqp (snd (DefaultErrHandler \<lparr>Redelivered = True\<rparr> (Error ''timeout'')
          \<lparr>ticks = 0, calls = [], logs = [], amqp = []\<rparr>)) = [Ack False]
   \<and> fst (DefaultErrHandler \<lparr>Redelivered = False\<rparr> (Error ''timeout'')
          \<lparr>ticks = 0, calls = [], logs = [], amqp = []\<rparr>) = False
   \<and> amqp (snd (DefaultErrHandler \<lparr>Redelivered = False\<rparr> (Error ''timeout'')
          \<lparr>ticks = 0, calls = [], logs = [], amqp = []\<rparr>)) = [Nack False True]"
  using
    DefaultErrHandler_policy [of "\<lparr>Redelivered = True\<rparr>" "Error ''timeout''"
       "\<lparr>ticks = 0, calls = [], logs = [], amqp = []\<rparr>" "Error ''timeout''"]
    DefaultErrHandler_policy [of "\<lparr>Redelivered = False\<rparr>" "Error ''timeout''"
       "\<lparr>ticks = 0, calls = [], logs = [], amqp = []\<rparr>" "Error ''timeout''"]
  by simp

section \<open>The weighted union of eight daily buckets\<close>

text \<open>
  Materializing a rolling bucket issues one call, a union with aggregate \<open>SUM\<close> into the
  given key. Its sources are eight daily keys: those of the start of the day of \<open>from\<close>,
  taken once more inside the function, minus \<open>i\<close> days, for \<open>i\<close> from 0 to 7. The weight
  of the first is 1 and the weight at offset \<open>i > 0\<close> is the \<open>float64\<close> quotient of 1 by
  \<open>i\<close>.
\<close>

lemma createSevenDayCombinedBucket_sources:
  "calls (snd (createSevenDayCombinedBucket sys c cm key from w)) =
     calls w @
       [SortedSetsUnion key
          (map (\<lambda>i. fst (GetDailyKey sys c (getXDaysAgo (getStartOfDay from) i) w)) [0..7])
          (map (\<lambda>i. if i = 0 then 1 else f64_div 1 (of_int i)) [0..7])
          ''SUM'']
   \<and> length (map (\<lambda>i. fst (GetDailyKey sys c (getXDaysAgo (getStartOfDay from) i) w)) [0..7]) = 8
   \<and> map (\<lambda>i. if i = 0 then 1 else f64_div 1 (of_int i)) [0..7] =
       [1, 1, 1 / 2, 6004799503160661 / 18014398509481984, 1 / 4,
        3602879701896397 / 18014398509481984, 6004799503160661 / 36028797018963968,
        2573485501354569 / 18014398509481984]"
  using createSevenDayCombinedBucket_call [of sys c cm key "from" w] union_weights
  by (simp add: upto_0_7)

lemma createSevenDayCombinedBucket_on_sample:
  "calls (snd (createSevenDayCombinedBucket demo_sys demo_channel demo_message ''rolling''
                 (CreatedAt demo_message) demo_world)) =
     [SortedSetsUnion ''rolling''
        [''vagrant:koding:popularpost:public:1399939200'',
         ''vagrant:koding:popularpost:public:1399852800'',
         ''vagrant:koding:popularpost:public:1399766400'',
         ''vagrant:koding:popularpost:public:1399680000'',
         ''vagrant:koding:popularpost:public:1399593600'',
         ''vagrant:koding:popularpost:public:1399507200'',
         ''vagrant:koding:popularpost:public:1399420800'',
         ''vagrant:koding:popularpost:public:1399334400'']
        [1, 1, 1 / 2, 6004799503160661 / 18014398509481984, 1 / 4,
         3602879701896397 / 18014398509481984, 6004799503160661 / 36028797018963968,
         2573485501354569 / 18014398509481984]
        ''SUM'']"
  using createSevenDayCombinedBucket_sources [of demo_sys demo_channel demo_message "''rolling''"
      "CreatedAt demo_message" demo_world] demo_daily_keys
  by (simp add: demo_world_def)

text \<open>
  When the location of the message's creation time has a constant offset, taking the
  start of the day twice is the same as taking it once, and the sources are the daily
  key of the message itself and those of the seven days before it.
\<close>

lemma getStartOfDay_constant_offset:
  assumes "zone t = (\<lambda>_. off)" "0 \<le> nsec t" "nsec t < 1000000000"
  shows "getStartOfDay t = t\<lparr>unix := unix t - (unix t + off) mod 86400\<rparr>"
proof -
  let ?x = "Time_abs t"
  have x: "?x = unix t + off" using assms(1) by (simp add: Time_abs_def)
  have "(- Time_Hour t) * time_Hour - Time_Minute t * time_Minute - Time_Second t * time_Second
        = (- (((?x mod 86400) div 3600) * 3600 + ((?x mod 3600) div 60) * 60 + ?x mod 60)) * 1000000000"
    by (simp add: Time_Hour_def Time_Minute_def Time_Second_def time_Hour_def time_Minute_def
          time_Second_def algebra_simps)
  also have "\<dots> = (- (?x mod 86400)) * 1000000000" unfolding clock_fields_sum ..
  finally have d: "(- Time_Hour t) * time_Hour - Time_Minute t * time_Minute
                      - Time_Second t * time_Second = (- (?x mod 86400)) * 1000000000" .
  have q: "(nsec t + (- (?x mod 86400)) * 1000000000) div 1000000000
             = - (?x mod 86400) + nsec t div 1000000000"
    by (rule div_mult_self1) simp
  have r: "(nsec t + (- (?x mod 86400)) * 1000000000) mod 1000000000 = nsec t mod 1000000000"
    by (rule mod_mult_self1)
  have n: "nsec t div 1000000000 = 0" "nsec t mod 1000000000 = nsec t"
    using assms(2,3) by simp_all
  show ?thesis
    unfolding getStartOfDay_def Let_def d Time_Add_def q r n by (simp add: x)
qed

lemma getStartOfDay_constant_offset_idem:
  assumes "zone t = (\<lambda>_. off)" "0 \<le> nsec t" "nsec t < 1000000000"
  shows "getStartOfDay (getStartOfDay t) = getStartOfDay t"
proof -
  let ?s = "t\<lparr>unix := unix t - (unix t + off) mod 86400\<rparr>"
  have s: "getStartOfDay t = ?s" using assms by (rule getStartOfDay_constant_offset)
  have "getStartOfDay ?s = ?s\<lparr>unix := unix ?s - (unix ?s + off) mod 86400\<rparr>"
    using assms by (intro getStartOfDay_constant_offset) simp_all
  moreover have "(unix ?s + off) mod 86400 = 0"
  proof -
    have "unix ?s + off = (unix t + off) - (unix t + off) mod 86400" by simp
    also have "\<dots> = 86400 * ((unix t + off) div 86400)" by (simp add: minus_mod_eq_mult_div)
    finally show ?thesis by simp
  qed
  ultimately show ?thesis unfolding s by simp
qed

lemma getXDaysAgo_fields:
  assumes "0 \<le> nsec t" "nsec t < 1000000000"
  shows "getXDaysAgo t j = t\<lparr>unix := unix t - 86400 * j\<rparr>"
proof -
  have d: "- time_Hour * 24 * j = (- (86400 * j)) * 1000000000"
    by (simp add: time_Hour_def time_Minute_def time_Second_def)
  have q: "(nsec t + (- (86400 * j)) * 1000000000) div 1000000000
             = - (86400 * j) + nsec t div 1000000000"
    by (rule div_mult_self1) simp
  have r: "(nsec t + (- (86400 * j)) * 1000000000) mod 1000000000 = nsec t mod 1000000000"
    by (rule mod_mult_self1)
  have n: "nsec t div 1000000000 = 0" "nsec t mod 1000000000 = nsec t"
    using assms by simp_all
  show ?thesis unfolding getXDaysAgo_def Let_def d Time_Add_def q r n by simp
qed

lemma rolling_sources_constant_offset:
  assumes "zone (CreatedAt cm) = (\<lambda>_. off)"
    and "0 \<le> nsec (CreatedAt cm)" "nsec (CreatedAt cm) < 1000000000"
    and "0 \<le> unix (CreatedAt cm)"
    and "0 \<le> i" "i \<le> 7"
  shows "fst (GetDailyKey sys c
                (getXDaysAgo (getStartOfDay (getStartOfDay (CreatedAt cm))) i) w) =
           PreparePopularPostKey sys (GroupName c) (Name c)
             (Time_Unix (getStartOfDay (CreatedAt cm)) - 86400 * i)"
    and "fst (GetDailyKey sys c (CreatedAt cm) w') =
           PreparePopularPostKey sys (GroupName c) (Name c)
             (Time_Unix (getStartOfDay (CreatedAt cm)))"
proof -
  let ?t = "CreatedAt cm"
  let ?s = "getStartOfDay ?t"
  have s: "?s = ?t\<lparr>unix := unix ?t - (unix ?t + off) mod 86400\<rparr>"
    using assms(1-3) by (rule getStartOfDay_constant_offset)
  have sz: "zone ?s = (\<lambda>_. off)" and sn: "0 \<le> nsec ?s" "nsec ?s < 1000000000"
    using assms(1-3) unfolding s by simp_all
  have lo: "- 86400 < unix ?s"
  proof -
    have "(unix ?t + off) mod 86400 < 86400" by simp
    moreover have "unix ?s = unix ?t - (unix ?t + off) mod 86400" by (subst s) simp
    ultimately show ?thesis using assms(4) by linarith
  qed
  let ?d = "getXDaysAgo ?s i"
  have d: "?d = ?s\<lparr>unix := unix ?s - 86400 * i\<rparr>" using sn by (rule getXDaysAgo_fields)
  have dz: "zone ?d = (\<lambda>_. off)" and dn: "0 \<le> nsec ?d" "nsec ?d < 1000000000"
    using sz sn by (simp_all add: d)
  have nz: "\<not> Time_IsZero ?d"
  proof -
    have "unix ?d = unix ?s - 86400 * i" by (subst d) simp
    then show ?thesis unfolding Time_IsZero_def using lo assms(6) by simp
  qed
  have start_d: "getStartOfDay ?d = ?d"
  proof -
    have "getStartOfDay ?d = ?d\<lparr>unix := unix ?d - (unix ?d + off) mod 86400\<rparr>"
      using dz dn by (rule getStartOfDay_constant_offset)
    moreover have "(unix ?d + off) mod 86400 = 0"
    proof -
      have us: "unix ?s = unix ?t - (unix ?t + off) mod 86400" by (subst s) simp
      have ud: "unix ?d = unix ?s - 86400 * i" by (subst d) simp
      have "unix ?d + off = (unix ?t + off) - (unix ?t + off) mod 86400 + (- i) * 86400"
        unfolding ud us by simp
      also have "\<dots> mod 86400 = ((unix ?t + off) - (unix ?t + off) mod 86400) mod 86400"
        by (rule mod_mult_self1)
      also have "\<dots> = 0" by (simp add: minus_mod_eq_mult_div)
      finally show ?thesis .
    qed
    ultimately show ?thesis by simp
  qed
  have "fst (GetDailyKey sys c ?d w) =
          PreparePopularPostKey sys (GroupName c) (Name c) (Time_Unix (getStartOfDay ?d))"
    using nz by (simp add: GetDailyKey_nonzero)
  also have "Time_Unix (getStartOfDay ?d) = Time_Unix ?s - 86400 * i"
    unfolding start_d Time_Unix_def by (subst d) simp
  finally show "fst (GetDailyKey sys c
                (getXDaysAgo (getStartOfDay (getStartOfDay (CreatedAt cm))) i) w) =
           PreparePopularPostKey sys (GroupName c) (Name c)
             (Time_Unix (getStartOfDay (CreatedAt cm)) - 86400 * i)"
    unfolding getStartOfDay_constant_offset_idem[OF assms(1-3)] .
  have "\<not> Time_IsZero ?t" unfolding Time_IsZero_def using assms(4) by simp
  then show "fst (GetDailyKey sys c (CreatedAt cm) w') =
           PreparePopularPostKey sys (GroupName c) (Name c)
             (Time_Unix (getStartOfDay (CreatedAt cm)))"
    by (simp add: GetDailyKey_nonzero)
qed

lemma saveToSevenDayBucket_sources_constant_offset:
  assumes "zone (CreatedAt cm) = (\<lambda>_. off)"
    and "0 \<le> nsec (CreatedAt cm)" "nsec (CreatedAt cm) < 1000000000"
    and "0 \<le> unix (CreatedAt cm)"
    and "\<not> store_exists sys (calls w) (fst (GetSevenDayKey sys c cm w))"
  shows "\<exists>rest.
           calls (snd (saveToSevenDayBucket sys c cm i n w)) =
             calls w @
               Exists (fst (GetSevenDayKey sys c cm w))
               # SortedSetsUnion (fst (GetSevenDayKey sys c cm w))
                   (map (\<lambda>j. PreparePopularPostKey sys (GroupName c) (Name c)
                               (Time_Unix (getStartOfDay (CreatedAt cm)) - 86400 * j)) [0..7])
                   (map (\<lambda>j. if j = 0 then 1 else f64_div 1 (of_int j)) [0..7])
                   ''SUM''
               # rest"
proof -
  let ?t = "CreatedAt cm"
  have nz: "\<not> Time_IsZero ?t" unfolding Time_IsZero_def using assms(4) by simp
  obtain key where k: "GetSevenDayKey sys c cm w = (key, w)"
    using nz by (simp add: GetSevenDayKey_def GetDailyKey_nonzero Let_def)
  have key: "fst (GetSevenDayKey sys c cm w) = key" using k by simp
  define w2 where "w2 = w\<lparr>calls := calls w @ [Exists key]\<rparr>"
  have absent: "\<not> store_exists sys (calls w) key" using assms(5) key by simp
  let ?srcs = "map (\<lambda>j. PreparePopularPostKey sys (GroupName c) (Name c)
                        (Time_Unix (getStartOfDay ?t) - 86400 * j)) [0..7]"
  let ?ws = "map (\<lambda>j. if j = 0 then 1 else f64_div 1 (of_int j)) [0..7]"
  have "map (\<lambda>j. fst (GetDailyKey sys c (getXDaysAgo (getStartOfDay (getStartOfDay ?t)) j) w2))
          [0..7] = ?srcs"
    using rolling_sources_constant_offset(1)[OF assms(1-4)] by (intro map_cong) simp_all
  with createSevenDayCombinedBucket_call[of sys c cm key "getStartOfDay ?t" w2]
  have u: "calls (snd (createSevenDayCombinedBucket sys c cm key (getStartOfDay ?t) w2)) =
             calls w @ [Exists key, SortedSetsUnion key ?srcs ?ws ''SUM'']"
    by (simp add: w2_def)
  obtain r3 w3 where b: "createSevenDayCombinedBucket sys c cm key (getStartOfDay ?t) w2 = (r3, w3)"
    by (cases "createSevenDayCombinedBucket sys c cm key (getStartOfDay ?t) w2")
  have c3: "calls w3 = calls w @ [Exists key, SortedSetsUnion key ?srcs ?ws ''SUM'']"
    using u b by simp
  have "saveToSevenDayBucket sys c cm i n w =
          (case r3 of Some err \<Rightarrow> (Some err, w3)
                    | None \<Rightarrow> redis_SortedSetIncrBy sys key n (Id cm) w3)"
    using k absent b
    by (simp add: saveToSevenDayBucket_def redis_Exists_def Let_def w2_def split: option.splits)
  then have "\<exists>rest. calls (snd (saveToSevenDayBucket sys c cm i n w)) =
                 calls w @ Exists key # SortedSetsUnion key ?srcs ?ws ''SUM'' # rest"
    using c3 by (cases r3) (simp_all add: redis_SortedSetIncrBy_def)
  then show ?thesis unfolding key .
qed

text \<open>
  Claim C4. The union has eight sources, the weights 1, 1, 1/2, ..., 1/7 and the
  aggregate \<open>SUM\<close>, but its sources are not always the daily keys of the message's day
  and of the seven days before. For the post created in New York on the day of the clock
  change, the start of the day lands at 23:00 of the day before; taken again it moves
  back to the midnight before that. The sources then begin one day early, and the
  message's own daily key is not among them.
\<close>

theorem rolling_sources_at_clock_change:
  "fst (GetDailyKey demo_sys demo_channel (CreatedAt dst_message) demo_world)
     = ''vagrant:koding:popularpost:public:1394337600''
   \<and> calls (snd (saveToSevenDayBucket demo_sys demo_channel dst_message demo_interaction 1
                   demo_world))
     = [Exists ''%!d(string=vagrant:koding:popularpost:public:1394337600)-1393732800'',
        SortedSetsUnion ''%!d(string=vagrant:koding:popularpost:public:1394337600)-1393732800''
          [''vagrant:koding:popularpost:public:1394254800'',
           ''vagrant:koding:popularpost:public:1394168400'',
           ''vagrant:koding:popularpost:public:1394082000'',
           ''vagrant:koding:popularpost:public:1393995600'',
           ''vagrant:koding:popularpost:public:1393909200'',
           ''vagrant:koding:popularpost:public:1393822800'',
           ''vagrant:koding:popularpost:public:1393736400'',
           ''vagrant:koding:popularpost:public:1393650000'']
          [1, 1, 1 / 2, 6004799503160661 / 18014398509481984, 1 / 4,
           3602879701896397 / 18014398509481984, 6004799503160661 / 36028797018963968,
           2573485501354569 / 18014398509481984]
          ''SUM'',
        SortedSetIncrBy ''%!d(string=vagrant:koding:popularpost:public:1394337600)-1393732800''
          1 8]
   \<and> ''vagrant:koding:popularpost:public:1394337600''
       \<notin> set [''vagrant:koding:popularpost:public:1394254800'',
                ''vagrant:koding:popularpost:public:1394168400'',
                ''vagrant:koding:popularpost:public:1394082000'',
                ''vagrant:koding:popularpost:public:1393995600'',
                ''vagrant:koding:popularpost:public:1393909200'',
                ''vagrant:koding:popularpost:public:1393822800'',
                ''vagrant:koding:popularpost:public:1393736400'',
                ''vagrant:koding:popularpost:public:1393650000'']"
proof -
  have a: "fst (GetDailyKey demo_sys demo_channel (CreatedAt dst_message) demo_world)
     = ''vagrant:koding:popularpost:public:1394337600''"
    by code_simp
  have b: "calls (snd (saveToSevenDayBucket demo_sys demo_channel dst_message demo_interaction 1
                   demo_world))
     = [Exists ''%!d(string=vagrant:koding:popularpost:public:1394337600)-1393732800'',
        SortedSetsUnion ''%!d(string=vagrant:koding:popularpost:public:1394337600)-1393732800''
          [''vagrant:koding:popularpost:public:1394254800'',
           ''vagrant:koding:popularpost:public:1394168400'',
           ''vagrant:koding:popularpost:public:1394082000'',
           ''vagrant:koding:popularpost:public:1393995600'',
           ''vagrant:koding:popularpost:public:1393909200'',
           ''vagrant:koding:popularpost:public:1393822800'',
           ''vagrant:koding:popularpost:public:1393736400'',
           ''vagrant:koding:popularpost:public:1393650000'']
          [1, 1, 1 / 2, 6004799503160661 / 18014398509481984, 1 / 4,
           3602879701896397 / 18014398509481984, 6004799503160661 / 36028797018963968,
           2573485501354569 / 18014398509481984]
          ''SUM'',
        SortedSetIncrBy ''%!d(string=vagrant:koding:popularpost:public:1394337600)-1393732800''
          1 8]"
    by code_simp
  from a b show ?thesis by simp
qed

section \<open>The rolling bucket update\<close>

text \<open>
  Claim C5. The rolling bucket update first asks the store whether the rolling key
  exists. When it does, the only further call is the increment of the message's score
  by the signed count. When it does not, a single weighted union into the rolling key
  is issued, with aggregate \<open>SUM\<close>; if the union succeeds the same increment follows,
  and if it fails its error is returned and nothing else is called.
\<close>

theorem saveToSevenDayBucket_steps:
  assumes "key = fst (GetSevenDayKey sys c cm w)"
    and "incr = SortedSetIncrBy key n (Id cm)"
    and "saveToSevenDayBucket sys c cm i n w = (r, w')"
  shows "(store_exists sys (calls w) key \<longrightarrow>
            calls w' = calls w @ [Exists key, incr]
            \<and> r = store_error sys (calls w @ [Exists key]) incr)
       \<and> (\<not> store_exists sys (calls w) key \<longrightarrow>
            (\<exists>keys weights.
               (case store_error sys (calls w @ [Exists key]) (SortedSetsUnion key keys weights ''SUM'') of
                  Some err \<Rightarrow>
                    calls w' = calls w @ [Exists key, SortedSetsUnion key keys weights ''SUM'']
                    \<and> r = Some err
                | None \<Rightarrow>
                    calls w' = calls w @ [Exists key, SortedSetsUnion key keys weights ''SUM'', incr]
                    \<and> r = store_error sys
                          (calls w @ [Exists key, SortedSetsUnion key keys weights ''SUM'']) incr)))"
  using assms by (rule saveToSevenDayBucket_trace)

theorem saveToSevenDayBucket_steps_witness:
  "(\<exists>keys weights.
      calls (snd (saveToSevenDayBucket demo_sys demo_channel demo_message demo_interaction 1 demo_world))
        = [Exists ''%!d(string=vagrant:koding:popularpost:public:1399939200)-1399334400'',
           SortedSetsUnion ''%!d(string=vagrant:koding:popularpost:public:1399939200)-1399334400''
             keys weights ''SUM'',
           SortedSetIncrBy ''%!d(string=vagrant:koding:popularpost:public:1399939200)-1399334400'' 1 7])
   \<and> calls (snd (saveToSevenDayBucket demo_sys demo_channel demo_message demo_interaction 1
        (demo_world\<lparr>calls :=
            [SortedSetIncrBy
               ''%!d(string=vagrant:koding:popularpost:public:1399939200)-1399334400'' 1 7]\<rparr>)))
        = [SortedSetIncrBy ''%!d(string=vagrant:koding:popularpost:public:1399939200)-1399334400'' 1 7,
           Exists ''%!d(string=vagrant:koding:popularpost:public:1399939200)-1399334400'',
           SortedSetIncrBy ''%!d(string=vagrant:koding:popularpost:public:1399939200)-1399334400'' 1 7]"
proof -
  let ?K = "''%!d(string=vagrant:koding:popularpost:public:1399939200)-1399334400''"
  let ?w = "demo_world\<lparr>calls := [SortedSetIncrBy ?K 1 7]\<rparr>"
  have absent: "\<not> store_exists demo_sys (calls demo_world) ?K"
    by (simp add: demo_sys_def demo_world_def)
  have present: "store_exists demo_sys (calls ?w) ?K"
    by (simp add: demo_sys_def)
  have ok: "store_error demo_sys h op = None" for h op
    by (simp add: demo_sys_def)
  have id: "Id demo_message = 7" by (simp add: demo_message_def)
  from saveToSevenDayBucket_steps [OF demo_rolling_key [symmetric] refl prod.collapse [symmetric],
      of demo_interaction 1] absent
  have a: "\<exists>keys weights.
      calls (snd (saveToSevenDayBucket demo_sys demo_channel demo_message demo_interaction 1 demo_world))
        = [Exists ?K, SortedSetsUnion ?K keys weights ''SUM'', SortedSetIncrBy ?K 1 7]"
    by (simp add: ok id demo_world_def)
  from saveToSevenDayBucket_steps [OF demo_rolling_key_later [symmetric] refl prod.collapse [symmetric],
      of demo_interaction 1] present
  have b: "calls (snd (saveToSevenDayBucket demo_sys demo_channel demo_message demo_interaction 1 ?w))
        = [SortedSetIncrBy ?K 1 7, Exists ?K, SortedSetIncrBy ?K 1 7]"
    by (simp add: id)
  from a b show ?thesis by simp
qed

section \<open>The eligibility filter\<close>

text \<open>
  Claim C6. The filter answers "not eligible" exactly when the channel carries the troll
  flag, or the channel is not public, or the message carries the troll flag, or the
  message is not a post; when none of the four holds the interaction is eligible.
\<close>

theorem notEligibleForPopularPost_iff:
  "notEligibleForPopularPost c cm \<longleftrightarrow>
     (Is (ChannelMetaBits c) Troll \<or> PrivacyConstant c \<noteq> Channel_PRIVACY_PUBLIC
      \<or> Is (MessageMetaBits cm) Troll \<or> TypeConstant cm \<noteq> ChannelMessage_TYPE_POST)"
  by (simp add: notEligibleForPopularPost_def)

theorem notEligibleForPopularPost_iff_witness:
  "\<not> notEligibleForPopularPost
       \<lparr>GroupName = ''koding'', Name = ''public'', PrivacyConstant = ''public'', ChannelMetaBits = {}\<rparr>
       \<lparr>Id = 7, InitialChannelId = 3, TypeConstant = ''post'',
        CreatedAt = \<lparr>unix = 1400000000, nsec = 0, zone = (\<lambda>_. 0)\<rparr>, MessageMetaBits = {}\<rparr>
   \<and> notEligibleForPopularPost
       \<lparr>GroupName = ''koding'', Name = ''public'', PrivacyConstant = ''private'', ChannelMetaBits = {}\<rparr>
       \<lparr>Id = 7, InitialChannelId = 3, TypeConstant = ''post'',
        CreatedAt = \<lparr>unix = 1400000000, nsec = 0, zone = (\<lambda>_. 0)\<rparr>, MessageMetaBits = {}\<rparr>
   \<and> notEligibleForPopularPost
       \<lparr>GroupName = ''koding'', Name = ''public'', PrivacyConstant = ''public'', ChannelMetaBits = {}\<rparr>
       \<lparr>Id = 7, InitialChannelId = 3, TypeConstant = ''reply'',
        CreatedAt = \<lparr>unix = 1400000000, nsec = 0, zone = (\<lambda>_. 0)\<rparr>, MessageMetaBits = {Troll}\<rparr>"
  using
    notEligibleForPopularPost_iff [of
       "\<lparr>GroupName = ''koding'', Name = ''public'', PrivacyConstant = ''public'', ChannelMetaBits = {}\<rparr>"
       "\<lparr>Id = 7, InitialChannelId = 3, TypeConstant = ''post'',
        CreatedAt = \<lparr>unix = 1400000000, nsec = 0, zone = (\<lambda>_. 0)\<rparr>, MessageMetaBits = {}\<rparr>"]
    notEligibleForPopularPost_iff [of
       "\<lparr>GroupName = ''koding'', Name = ''public'', PrivacyConstant = ''private'', ChannelMetaBits = {}\<rparr>"
       "\<lparr>Id = 7, InitialChannelId = 3, TypeConstant = ''post'',
        CreatedAt = \<lparr>unix = 1400000000, nsec = 0, zone = (\<lambda>_. 0)\<rparr>, MessageMetaBits = {}\<rparr>"]
    notEligibleForPopularPost_iff [of
       "\<lparr>GroupName = ''koding'', Name = ''public'', PrivacyConstant = ''public'', ChannelMetaBits = {}\<rparr>"
       "\<lparr>Id = 7, InitialChannelId = 3, TypeConstant = ''reply'',
        CreatedAt = \<lparr>unix = 1400000000, nsec = 0, zone = (\<lambda>_. 0)\<rparr>, MessageMetaBits = {Troll}\<rparr>"]
  by (simp add: Is_def Channel_PRIVACY_PUBLIC_def ChannelMessage_TYPE_POST_def)

section \<open>Ineligible and old posts leave the score store alone\<close>

text \<open>
  Claim C7. When both lookups succeed and the post is not eligible, or was created more
  than seven days before the clock reading, the handler returns success and issues no
  call to the score store: no existence check, no union, no increment.
\<close>

theorem handleInteraction_skips:
  assumes "ChannelMessageById sys (MessageId i) = Inr cm"
    and "ChannelById sys (InitialChannelId cm) = Inr c"
    and "notEligibleForPopularPost c cm
         \<or> 7 * 24 * time_Hour < nanos_between (CreatedAt cm) (clock sys (ticks w))"
  shows "fst (handleInteraction sys n i w) = None
       \<and> calls (snd (handleInteraction sys n i w)) = calls w"
proof -
  have "notEligibleForPopularPost c cm \<or> fst (createdMoreThan7DaysAgo sys (CreatedAt cm) w)"
    using assms(3)
    by (simp add: createdMoreThan7DaysAgo_exact time_Hour_def time_Minute_def time_Second_def)
  with assms(1,2) show ?thesis by (rule handleInteraction_no_store_call)
qed

theorem handleInteraction_skips_witness:
  "fst (handleInteraction
          (demo_sys\<lparr>ChannelById := (\<lambda>_. Inr (demo_channel\<lparr>PrivacyConstant := ''private''\<rparr>))\<rparr>)
          1 demo_interaction demo_world) = None
   \<and> calls (snd (handleInteraction
          (demo_sys\<lparr>ChannelById := (\<lambda>_. Inr (demo_channel\<lparr>PrivacyConstant := ''private''\<rparr>))\<rparr>)
          1 demo_interaction demo_world)) = []
   \<and> fst (handleInteraction
          (demo_sys\<lparr>ChannelMessageById :=
             (\<lambda>_. Inr (demo_message\<lparr>CreatedAt := \<lparr>unix = 1399308800, nsec = 0, zone = (\<lambda>_. 0)\<rparr>\<rparr>))\<rparr>)
          (- 1) demo_interaction demo_world) = None
   \<and> calls (snd (handleInteraction
          (demo_sys\<lparr>ChannelMessageById :=
             (\<lambda>_. Inr (demo_message\<lparr>CreatedAt := \<lparr>unix = 1399308800, nsec = 0, zone = (\<lambda>_. 0)\<rparr>\<rparr>))\<rparr>)
          (- 1) demo_interaction demo_world)) = []"
proof -
  let ?s1 = "demo_sys\<lparr>ChannelById := (\<lambda>_. Inr (demo_channel\<lparr>PrivacyConstant := ''private''\<rparr>))\<rparr>"
  let ?old = "demo_message\<lparr>CreatedAt := \<lparr>unix = 1399308800, nsec = 0, zone = (\<lambda>_. 0)\<rparr>\<rparr>"
  let ?s2 = "demo_sys\<lparr>ChannelMessageById := (\<lambda>_. Inr ?old)\<rparr>"
  have a1: "ChannelMessageById ?s1 (MessageId demo_interaction) = Inr demo_message"
    by (simp add: demo_sys_def demo_interaction_def)
  have a2: "ChannelById ?s1 (InitialChannelId demo_message)
              = Inr (demo_channel\<lparr>PrivacyConstant := ''private''\<rparr>)"
    by simp
  have a3: "notEligibleForPopularPost (demo_channel\<lparr>PrivacyConstant := ''private''\<rparr>) demo_message
            \<or> 7 * 24 * time_Hour
                < nanos_between (CreatedAt demo_message) (clock ?s1 (ticks demo_world))"
    by (simp add: notEligibleForPopularPost_def demo_channel_def Is_def Channel_PRIVACY_PUBLIC_def)
  have b1: "ChannelMessageById ?s2 (MessageId demo_interaction) = Inr ?old" by simp
  have b2: "ChannelById ?s2 (InitialChannelId ?old) = Inr demo_channel"
    by (simp add: demo_sys_def demo_message_def)
  have b3: "notEligibleForPopularPost demo_channel ?old
            \<or> 7 * 24 * time_Hour < nanos_between (CreatedAt ?old) (clock ?s2 (ticks demo_world))"
    by (simp add: demo_sys_def demo_world_def nanos_between_def time_Hour_def time_Minute_def
          time_Second_def)
  show ?thesis
    using handleInteraction_skips [OF a1 a2 a3, of 1] handleInteraction_skips [OF b1 b2 b3, of "- 1"]
    by (simp add: demo_world_def)
qed

section \<open>The age check is exact\<close>

text \<open>
  Claim C8. The check answers "too old" exactly when the creation time lies strictly more
  than \<open>7 * 24\<close> hours before the clock reading; a post created exactly seven days ago,
  or later, passes. The check reads the creation time and the clock only, so it does
  not depend on the channel, on the flags or on the content type.
\<close>

theorem createdMoreThan7DaysAgo_iff:
  "fst (createdMoreThan7DaysAgo sys createdAt w) \<longleftrightarrow>
     7 * 24 * time_Hour < nanos_between createdAt (clock sys (ticks w))"
proof -
  have "fst (createdMoreThan7DaysAgo sys createdAt w)
          = (7 < f64_div (Duration_Hours (Time_Sub (clock sys (ticks w)) createdAt)) 24)"
    by (simp add: createdMoreThan7DaysAgo_def time_Now_def Let_def)
  also have "\<dots> = (604800000000000 < Time_Sub (clock sys (ticks w)) createdAt)"
    by (rule Duration_Hours_over_24)
  also have "\<dots> = (604800000000000 < nanos_between createdAt (clock sys (ticks w)))"
    by (rule Time_Sub_over_week)
  also have "604800000000000 = 7 * 24 * time_Hour"
    by (simp add: time_Hour_def time_Minute_def time_Second_def)
  finally show ?thesis .
qed

theorem createdMoreThan7DaysAgo_iff_witness:
  "\<not> fst (createdMoreThan7DaysAgo demo_sys \<lparr>unix = 1399395200, nsec = 0, zone = (\<lambda>_. 0)\<rparr> demo_world)
   \<and> fst (createdMoreThan7DaysAgo demo_sys
            \<lparr>unix = 1399395199, nsec = 999999999, zone = (\<lambda>_. 0)\<rparr> demo_world)
   \<and> \<not> fst (createdMoreThan7DaysAgo demo_sys
            \<lparr>unix = 1500000000, nsec = 0, zone = (\<lambda>_. 3600)\<rparr> demo_world)"
  using
    createdMoreThan7DaysAgo_iff [of demo_sys "\<lparr>unix = 1399395200, nsec = 0, zone = (\<lambda>_. 0)\<rparr>" demo_world]
    createdMoreThan7DaysAgo_iff [of demo_sys
       "\<lparr>unix = 1399395199, nsec = 999999999, zone = (\<lambda>_. 0)\<rparr>" demo_world]
    createdMoreThan7DaysAgo_iff [of demo_sys "\<lparr>unix = 1500000000, nsec = 0, zone = (\<lambda>_. 3600)\<rparr>"
       demo_world]
  by (simp add: demo_sys_def demo_world_def nanos_between_def time_Hour_def time_Minute_def
        time_Second_def)

section \<open>The order of the steps of one interaction\<close>

text \<open>
  Claim C9. A failed lookup of the message or of the channel is returned at once, with
  nothing logged, no clock read and no call to the score store. A post that is not
  eligible or too old ends the handling with success and no call. For an eligible post
  that is not too old, the daily bucket update runs first and issues exactly one
  increment; if it fails its error is returned and the rolling bucket update does not
  run; otherwise the handler returns what the rolling bucket update returns, whose
  calls begin with the existence check and follow the daily increment. So an error of
  either update is returned, and success is returned only when both have succeeded.
\<close>

theorem handleInteraction_sequencing:
  "(case ChannelMessageById sys (MessageId i) of
      Inl err \<Rightarrow> handleInteraction sys n i w = (Some err, w)
    | Inr cm \<Rightarrow>
        (case ChannelById sys (InitialChannelId cm) of
           Inl err \<Rightarrow> handleInteraction sys n i w = (Some err, w)
         | Inr c \<Rightarrow>
             (notEligibleForPopularPost c cm \<or> fst (createdMoreThan7DaysAgo sys (CreatedAt cm) w) \<longrightarrow>
                fst (handleInteraction sys n i w) = None
                \<and> calls (snd (handleInteraction sys n i w)) = calls w) \<and>
             (\<not> notEligibleForPopularPost c cm \<longrightarrow>
              \<not> fst (createdMoreThan7DaysAgo sys (CreatedAt cm) w) \<longrightarrow>
             (let w1 = snd (createdMoreThan7DaysAgo sys (CreatedAt cm) w);
                  daily = saveToDailyBucket sys c cm i n w1;
                  rolling = saveToSevenDayBucket sys c cm i n (snd daily)
              in calls (snd daily) =
                   calls w @ [SortedSetIncrBy (fst (GetDailyKey sys c (CreatedAt cm) w1)) n (Id cm)]
                 \<and> (case fst daily of
                      Some err \<Rightarrow> handleInteraction sys n i w = (Some err, snd daily)
                    | None \<Rightarrow>
                        handleInteraction sys n i w = rolling
                        \<and> (\<exists>rest. calls (snd rolling) =
                              calls (snd daily)
                                @ Exists (fst (GetSevenDayKey sys c cm (snd daily))) # rest))))))"
proof (cases "ChannelMessageById sys (MessageId i)")
  case (Inl err)
  then show ?thesis by (simp add: handleInteraction_def)
next
  case cm: (Inr cm)
  show ?thesis
  proof (cases "ChannelById sys (InitialChannelId cm)")
    case (Inl err)
    then show ?thesis using cm by (simp add: handleInteraction_def)
  next
    case c: (Inr c)
    have "calls (snd (createdMoreThan7DaysAgo sys (CreatedAt cm) w)) = calls w"
      using createdMoreThan7DaysAgo_frame[of sys "CreatedAt cm" w] by simp
    then show ?thesis
      using cm c handleInteraction_eligible_fresh[OF cm c, of w n]
        handleInteraction_no_store_call[OF cm c, of w n]
        saveToDailyBucket_trace[of sys c cm i n "snd (createdMoreThan7DaysAgo sys (CreatedAt cm) w)"]
        saveToSevenDayBucket_first_call[of sys c cm i n
          "snd (saveToDailyBucket sys c cm i n (snd (createdMoreThan7DaysAgo sys (CreatedAt cm) w)))"]
      by (simp add: Let_def split: option.splits)
  qed
qed

theorem handleInteraction_sequencing_witness:
  "handleInteraction demo_sys 1 (demo_interaction\<lparr>MessageId := 8\<rparr>) demo_world
     = (Some (Error ''record not found''), demo_world)
   \<and> fst (handleInteraction demo_sys 1 demo_interaction demo_world) = None
   \<and> calls (snd (saveToDailyBucket demo_sys demo_channel demo_message demo_interaction 1
              (snd (createdMoreThan7DaysAgo demo_sys (CreatedAt demo_message) demo_world))))
       = [SortedSetIncrBy ''vagrant:koding:popularpost:public:1399939200'' 1 7]
   \<and> (\<exists>rest. calls (snd (handleInteraction demo_sys 1 demo_interaction demo_world)) =
         [SortedSetIncrBy ''vagrant:koding:popularpost:public:1399939200'' 1 7,
          Exists ''%!d(string=vagrant:koding:popularpost:public:1399939200)-1399334400''] @ rest)"
proof -
  have miss: "ChannelMessageById demo_sys (MessageId (demo_interaction\<lparr>MessageId := 8\<rparr>))
                = Inl (Error ''record not found'')"
    by (simp add: demo_sys_def)
  have cm: "ChannelMessageById demo_sys (MessageId demo_interaction) = Inr demo_message"
    by (simp add: demo_sys_def demo_interaction_def)
  have c: "ChannelById demo_sys (InitialChannelId demo_message) = Inr demo_channel"
    by (simp add: demo_sys_def demo_message_def)
  have el: "\<not> notEligibleForPopularPost demo_channel demo_message"
    by (simp add: notEligibleForPopularPost_def demo_channel_def demo_message_def Is_def
          Channel_PRIVACY_PUBLIC_def ChannelMessage_TYPE_POST_def)
  have fresh: "\<not> fst (createdMoreThan7DaysAgo demo_sys (CreatedAt demo_message) demo_world)"
    by (simp add: createdMoreThan7DaysAgo_exact demo_sys_def demo_message_def demo_world_def
          nanos_between_def)
  have dk: "fst (GetDailyKey demo_sys demo_channel (CreatedAt demo_message)
                  (snd (createdMoreThan7DaysAgo demo_sys (CreatedAt demo_message) demo_world)))
              = ''vagrant:koding:popularpost:public:1399939200''"
    by (simp add: GetDailyKey_nonzero Time_IsZero_def demo_message_def) code_simp
  from handleInteraction_sequencing [where sys = demo_sys and i = "demo_interaction\<lparr>MessageId := 8\<rparr>"
         and n = 1 and w = demo_world]
  have first: "handleInteraction demo_sys 1 (demo_interaction\<lparr>MessageId := 8\<rparr>) demo_world
     = (Some (Error ''record not found''), demo_world)"
    unfolding miss by simp
  from handleInteraction_sequencing [where sys = demo_sys and i = demo_interaction and n = 1 and w = demo_world]
  have "\<not> notEligibleForPopularPost demo_channel demo_message \<longrightarrow>
        \<not> fst (createdMoreThan7DaysAgo demo_sys (CreatedAt demo_message) demo_world) \<longrightarrow>
        calls (snd (saveToDailyBucket demo_sys demo_channel demo_message demo_interaction 1
              (snd (createdMoreThan7DaysAgo demo_sys (CreatedAt demo_message) demo_world))))
         = calls demo_world @
             [SortedSetIncrBy (fst (GetDailyKey demo_sys demo_channel (CreatedAt demo_message)
                (snd (createdMoreThan7DaysAgo demo_sys (CreatedAt demo_message) demo_world))))
                1 (Id demo_message)]"
    by (simp only: cm c sum.case Let_def) blast
  with el fresh
  have "calls (snd (saveToDailyBucket demo_sys demo_channel demo_message demo_interaction 1
              (snd (createdMoreThan7DaysAgo demo_sys (CreatedAt demo_message) demo_world))))
       = [SortedSetIncrBy ''vagrant:koding:popularpost:public:1399939200'' 1 7]"
    by (simp add: dk) (simp add: demo_world_def demo_message_def)
  with first demo_run show ?thesis by simp
qed

section \<open>The interaction contributes only its message id\<close>

text \<open>
  Claim C10. Two interactions with the same \<open>MessageId\<close>, handled with the same sign
  from the same state against the same lookups, clock and store, return the same result,
  issue the same calls to the score store and read the clock equally often: the
  interaction's own id and creation time reach the log only.
\<close>

theorem handleInteraction_depends_on_MessageId_only:
  assumes "MessageId i = MessageId i'"
  shows "fst (handleInteraction sys n i w) = fst (handleInteraction sys n i' w)
       \<and> calls (snd (handleInteraction sys n i w)) = calls (snd (handleInteraction sys n i' w))
       \<and> ticks (snd (handleInteraction sys n i w)) = ticks (snd (handleInteraction sys n i' w))"
proof (cases "ChannelMessageById sys (MessageId i)")
  case (Inl err)
  then show ?thesis using assms by (simp add: handleInteraction_def)
next
  case cm: (Inr cm)
  show ?thesis
  proof (cases "ChannelById sys (InitialChannelId cm)")
    case (Inl err)
    then show ?thesis using cm assms by (simp add: handleInteraction_def)
  next
    case c: (Inr c)
    have cm': "ChannelMessageById sys (MessageId i') = Inr cm" using cm assms by simp
    show ?thesis
    proof (cases "notEligibleForPopularPost c cm")
      case True
      then show ?thesis using cm cm' c by (simp add: handleInteraction_def log_Error_def)
    next
      case False
      show ?thesis
      proof (cases "fst (createdMoreThan7DaysAgo sys (CreatedAt cm) w)")
        case True
        then obtain w1 where a: "createdMoreThan7DaysAgo sys (CreatedAt cm) w = (True, w1)"
          by (cases "createdMoreThan7DaysAgo sys (CreatedAt cm) w") auto
        show ?thesis using cm cm' c False by (simp add: handleInteraction_def a log_Debug_def)
      next
        case old: False
        show ?thesis
          unfolding handleInteraction_eligible_fresh[OF cm c False old]
            handleInteraction_eligible_fresh[OF cm' c False old]
            saveToDailyBucket_ignores_interaction[of sys c cm i n _ i']
            saveToSevenDayBucket_ignores_interaction[of sys c cm i n _ i']
          by simp
      qed
    qed
  qed
qed

theorem handleInteraction_depends_on_MessageId_only_witness:
  "MessageId demo_interaction
     = MessageId \<lparr>InteractionId = 99, MessageId = 7,
                  InteractionCreatedAt = \<lparr>unix = 1300000000, nsec = 5, zone = (\<lambda>_. 7200)\<rparr>\<rparr>
   \<and> InteractionId demo_interaction
     \<noteq> InteractionId \<lparr>InteractionId = 99, MessageId = 7,
                  InteractionCreatedAt = \<lparr>unix = 1300000000, nsec = 5, zone = (\<lambda>_. 7200)\<rparr>\<rparr>
   \<and> fst (handleInteraction demo_sys (- 1) demo_interaction demo_world)
     = fst (handleInteraction demo_sys (- 1)
              \<lparr>InteractionId = 99, MessageId = 7,
               InteractionCreatedAt = \<lparr>unix = 1300000000, nsec = 5, zone = (\<lambda>_. 7200)\<rparr>\<rparr>
              demo_world)
   \<and> calls (snd (handleInteraction demo_sys (- 1) demo_interaction demo_world))
     = calls (snd (handleInteraction demo_sys (- 1)
              \<lparr>InteractionId = 99, MessageId = 7,
               InteractionCreatedAt = \<lparr>unix = 1300000000, nsec = 5, zone = (\<lambda>_. 7200)\<rparr>\<rparr>
              demo_world))"
proof -
  have m: "MessageId demo_interaction
     = MessageId \<lparr>InteractionId = 99, MessageId = 7,
                  InteractionCreatedAt = \<lparr>unix = 1300000000, nsec = 5, zone = (\<lambda>_. 7200)\<rparr>\<rparr>"
    by (simp add: demo_interaction_def)
  show ?thesis
    using m handleInteraction_depends_on_MessageId_only [OF m, of demo_sys "- 1" demo_world]
    by (simp add: demo_interaction_def)
qed

end
